theory Spec2Isabelle
  imports Complex_Main "HOL-Library.Multiset"
begin

section \<open>JavaScript numbers\<close>

text \<open>
  The program is TypeScript: every \<^verbatim>\<open>number\<close> is an IEEE 754 binary64 value.
  The four arithmetic operations are correctly rounded (round to nearest, ties to even),
  so they are modelled exactly: a finite double is the rational it denotes, and \<open>fl\<close>
  rounds a rational to the nearest double, with the subnormal range and overflow.
  Negative zero is not modelled (it is only observable through division, and the
  operands here are counts).
\<close>

datatype jsnum = Num rat | PosInf | NegInf | NaN

text \<open>The number of binary digits of a positive integer.\<close>

function bitlength :: "int \<Rightarrow> int" where
  "bitlength n = (if n \<le> 0 then 0 else 1 + bitlength (n div 2))"
  by pat_completeness auto
termination
  by (relation "measure nat") auto

declare bitlength.simps [simp del]

definition pow2 :: "int \<Rightarrow> rat" where
  "pow2 k = (if 0 \<le> k then 2 ^ nat k else 1 / 2 ^ nat (- k))"

text \<open>For \<open>x > 0\<close>, the exponent \<open>e\<close> with \<open>2^e \<le> x < 2^(e+1)\<close>.\<close>

definition binary_exponent :: "rat \<Rightarrow> int" where
  "binary_exponent x =
     (case quotient_of x of (p, q) \<Rightarrow>
        let k = bitlength p - bitlength q
        in if pow2 k \<le> x then k else k - 1)"

definition round_ties_even :: "rat \<Rightarrow> int" where
  "round_ties_even x =
     (let f = \<lfloor>x\<rfloor>; d = x - of_int f
      in if d < 1 / 2 then f else if 1 / 2 < d then f + 1
         else if even f then f else f + 1)"

text \<open>
  Rounding to binary64: 53 significant bits, least exponent \<open>-1022\<close> (below it the spacing
  stays \<open>2^-1074\<close>), and a result of magnitude \<open>2^1024\<close> or more is an infinity.
\<close>

definition fl :: "rat \<Rightarrow> jsnum" where
  "fl x =
     (if x = 0 then Num 0
      else let e = max (binary_exponent \<bar>x\<bar>) (- 1022);
               ulp = pow2 (e - 52);
               r = of_int (round_ties_even (x / ulp)) * ulp
           in if pow2 1024 \<le> r then PosInf
              else if r \<le> - pow2 1024 then NegInf
              else Num r)"

text \<open>\<^verbatim>\<open>a / b\<close> on finite operands.\<close>

definition js_div :: "rat \<Rightarrow> rat \<Rightarrow> jsnum" where
  "js_div a b =
     (if b = 0 then (if 0 < a then PosInf else if a < 0 then NegInf else NaN)
      else fl (a / b))"

text \<open>\<^verbatim>\<open>x * c\<close> for a finite constant \<open>c\<close>.\<close>

fun js_mul :: "jsnum \<Rightarrow> rat \<Rightarrow> jsnum" where
  "js_mul (Num x) c = fl (x * c)"
| "js_mul PosInf c = (if 0 < c then PosInf else if c < 0 then NegInf else NaN)"
| "js_mul NegInf c = (if 0 < c then NegInf else if c < 0 then PosInf else NaN)"
| "js_mul NaN c = NaN"

text \<open>\<^verbatim>\<open>Math.round\<close>: the nearest integer, ties towards \<open>+\<infinity>\<close>; exact on a double.\<close>

fun Math_round :: "jsnum \<Rightarrow> jsnum" where
  "Math_round (Num x) = Num (of_int \<lfloor>x + 1 / 2\<rfloor>)"
| "Math_round v = v"

text \<open>\<^verbatim>\<open>x > c\<close> for a finite constant \<open>c\<close>; false on \<^verbatim>\<open>NaN\<close>.\<close>

fun js_gt :: "jsnum \<Rightarrow> rat \<Rightarrow> bool" where
  "js_gt (Num x) c = (c < x)"
| "js_gt PosInf c = True"
| "js_gt NegInf c = False"
| "js_gt NaN c = False"

text \<open>
  \<^verbatim>\<open>Math.round((occupied / total) * 100)\<close>, the expression both the seeding and the update
  compute the percentage with.
\<close>

definition percent_of :: "int \<Rightarrow> int \<Rightarrow> jsnum" where
  "percent_of occupied total_slots' =
     Math_round (js_mul (js_div (of_int occupied) (of_int total_slots')) 100)"

text \<open>\<^verbatim>\<open>x - y\<close>, as the comparator of the distance sort computes it.\<close>

fun js_sub :: "jsnum \<Rightarrow> jsnum \<Rightarrow> jsnum" where
  "js_sub (Num x) (Num y) = fl (x - y)"
| "js_sub NaN _ = NaN"
| "js_sub _ NaN = NaN"
| "js_sub PosInf PosInf = NaN"
| "js_sub NegInf NegInf = NaN"
| "js_sub PosInf _ = PosInf"
| "js_sub NegInf _ = NegInf"
| "js_sub (Num x) PosInf = NegInf"
| "js_sub (Num x) NegInf = PosInf"

subsection \<open>Numbers and strings\<close>

text \<open>
  Strings are ASCII character lists. \<^verbatim>\<open>parseInt(s)\<close> without a radix skips leading white
  space, reads a sign, takes the prefix \<^verbatim>\<open>0x\<close> for base 16, reads the longest run of digits
  and is \<^verbatim>\<open>NaN\<close> when that run is empty; the integer read becomes a double. (Beyond twenty
  significant digits an engine may read the further digits as zeros; identifiers that long
  are outside the model.)
\<close>

definition isWhiteSpace :: "char \<Rightarrow> bool" where
  "isWhiteSpace c = (c \<in> set [CHR 0x09, CHR 0x0A, CHR 0x0B, CHR 0x0C, CHR 0x0D, CHR 0x20])"

definition digitValue :: "char \<Rightarrow> int option" where
  "digitValue c =
     (let n = (of_char c :: int)
      in if 48 \<le> n \<and> n \<le> 57 then Some (n - 48)
         else if 97 \<le> n \<and> n \<le> 122 then Some (n - 87)
         else if 65 \<le> n \<and> n \<le> 90 then Some (n - 55)
         else None)"

definition isRadixDigit :: "int \<Rightarrow> char \<Rightarrow> bool" where
  "isRadixDigit R c = (case digitValue c of None \<Rightarrow> False | Some v \<Rightarrow> v < R)"

definition parseInt :: "string \<Rightarrow> jsnum" where
  "parseInt str =
     (let S = dropWhile isWhiteSpace str;
          (sign, S1) = (case S of
                          [] \<Rightarrow> (1, S)
                        | c # cs \<Rightarrow> if c = CHR ''-'' then (- 1, cs)
                                    else if c = CHR ''+'' then (1, cs) else (1, S));
          (R, S2) = (case S1 of
                       a # b # cs \<Rightarrow> if a = CHR ''0'' \<and> (b = CHR ''x'' \<or> b = CHR ''X'')
                                       then (16, cs) else (10, S1)
                     | _ \<Rightarrow> (10, S1));
          Z = takeWhile (isRadixDigit R) S2
      in if Z = [] then NaN
         else fl (of_int (sign * foldl (\<lambda>acc c. case digitValue c of
                                                    None \<Rightarrow> acc
                                                  | Some v \<Rightarrow> acc * R + v) 0 Z)))"

text \<open>
  The decimal digits of a non-negative integer, and \<^verbatim>\<open>String(x)\<close> for the values
  \<^verbatim>\<open>Math.round\<close> returns (an integer below \<open>10^21\<close> in magnitude prints in full).
\<close>

definition digit_char :: "int \<Rightarrow> char" where
  "digit_char d = ''0123456789'' ! nat d"

function digits10 :: "int \<Rightarrow> string" where
  "digits10 n = (if n < 10 then [digit_char n] else digits10 (n div 10) @ [digit_char (n mod 10)])"
  by pat_completeness auto
termination
  by (relation "measure nat") auto

declare digits10.simps [simp del]

fun Number_toString :: "jsnum \<Rightarrow> string" where
  "Number_toString (Num x) =
     (let n = \<lfloor>x\<rfloor> in if n < 0 then CHR ''-'' # digits10 (- n) else digits10 n)"
| "Number_toString PosInf = ''Infinity''"
| "Number_toString NegInf = ''-Infinity''"
| "Number_toString NaN = ''NaN''"

text \<open>\<^verbatim>\<open>s.replace("T", " ")\<close> with string arguments replaces the first occurrence only.\<close>

fun replace_first :: "char \<Rightarrow> char \<Rightarrow> string \<Rightarrow> string" where
  "replace_first a b [] = []"
| "replace_first a b (c # cs) = (if c = a then b # cs else c # replace_first a b cs)"

subsection \<open>Arrays\<close>

datatype error = RangeError

text \<open>
  \<^verbatim>\<open>Array(n)\<close> throws a \<^verbatim>\<open>RangeError\<close> unless \<open>n\<close> is an integer from \<open>0\<close> to \<open>2^32 - 1\<close>;
  \<^verbatim>\<open>.fill(0)\<close> then gives \<open>n\<close> zeros.
\<close>

definition Array_fill0 :: "int \<Rightarrow> error + nat list" where
  "Array_fill0 n = (if 0 \<le> n \<and> n < 2 ^ 32 then Inr (replicate (nat n) 0) else Inl RangeError)"

text \<open>\<^verbatim>\<open>.map((_, idx) => (idx < occupiedCount ? 1 : 0))\<close>\<close>

definition mark_occupied :: "int \<Rightarrow> nat list \<Rightarrow> nat list" where
  "mark_occupied occupiedCount zeros =
     map (\<lambda>idx. if int idx < occupiedCount then 1 else 0) [0..<length zeros]"

text \<open>
  \<^verbatim>\<open>.sort(() => Math.random() - 0.5)\<close> rearranges the array in an order that depends on the
  random numbers drawn and on the engine's sorting algorithm. The rearrangement is a
  parameter of the model, one for each array sorted; that it only rearranges is the
  predicate \<open>rearranges\<close>.
\<close>

type_synonym shuffle = "nat list \<Rightarrow> nat list"

definition rearranges :: "shuffle \<Rightarrow> bool" where
  "rearranges sh = (\<forall>xs. mset (sh xs) = mset xs)"

text \<open>\<^verbatim>\<open>slots.length > 50 ? slots.slice(0, 50) : slots\<close>\<close>

definition visualSlots :: "nat list \<Rightarrow> nat list" where
  "visualSlots slots = (if length slots > 50 then take 50 slots else slots)"

text \<open>
  \<^verbatim>\<open>.sort(compare)\<close> with a comparator: a stable sort; a result that is \<^verbatim>\<open>NaN\<close> counts as
  zero. Insertion sort is one; on the two-element list sorted here every stable sort
  agrees with it.
\<close>

fun insert_by :: "('a \<Rightarrow> 'a \<Rightarrow> jsnum) \<Rightarrow> 'a \<Rightarrow> 'a list \<Rightarrow> 'a list" where
  "insert_by compare x [] = [x]"
| "insert_by compare x (y # ys) =
     (if js_gt (compare x y) 0 then y # insert_by compare x ys else x # y # ys)"

definition sort_by :: "('a \<Rightarrow> 'a \<Rightarrow> jsnum) \<Rightarrow> 'a list \<Rightarrow> 'a list" where
  "sort_by compare xs = foldr (insert_by compare) xs []"

section \<open>Geodistance\<close>

text \<open>
  \<^verbatim>\<open>Math.sin\<close>, \<^verbatim>\<open>Math.cos\<close>, \<^verbatim>\<open>Math.sqrt\<close> and \<^verbatim>\<open>Math.atan2\<close> are approximations whose
  accuracy the language leaves to the engine, so the distance is modelled over the real
  numbers. \<^verbatim>\<open>Math.sqrt\<close> of a negative number is \<^verbatim>\<open>NaN\<close>, which the result then is.
\<close>

definition atan2 :: "real \<Rightarrow> real \<Rightarrow> real" where
  "atan2 y x =
     (if 0 < x then arctan (y / x)
      else if x < 0 then (if 0 \<le> y then arctan (y / x) + pi else arctan (y / x) - pi)
      else if 0 < y then pi / 2 else if y < 0 then - pi / 2 else 0)"

definition getDistanceMeters :: "real \<Rightarrow> real \<Rightarrow> real \<Rightarrow> real \<Rightarrow> jsnum" where
  "getDistanceMeters lat1 lon1 lat2 lon2 =
     (let R = 6371000;
          phi1 = lat1 * pi / 180;
          phi2 = lat2 * pi / 180;
          dphi = (lat2 - lat1) * pi / 180;
          dlambda = (lon2 - lon1) * pi / 180;
          a = sin (dphi / 2) * sin (dphi / 2) +
              cos phi1 * cos phi1 * sin (dlambda / 2) * sin (dlambda / 2)
      in if a < 0 \<or> 1 - a < 0 then NaN
         else let c = 2 * atan2 (sqrt a) (sqrt (1 - a))
              in Num (of_int \<lfloor>R * c + 1 / 2\<rfloor>))"

section \<open>Data\<close>

datatype lot_type = surface | multistory

record ParkingLot =
  lot_id :: string
  name :: string
  lat :: real
  lng :: real
  distance_m :: jsnum
  predicted_percent :: jsnum
  total_slots :: int
  slots :: "nat list"
  lot_type :: lot_type

record Destination =
  dest_name :: string
  dest_lat :: real
  dest_lng :: real

record BackendSlotResponse =
  sample_id :: int
  datetime :: string
  sample_total_slots :: int
  total_occupied :: int
  total_empty :: int

datatype notification_type = info | warning

record Notification =
  msg :: string
  ntype :: notification_type

datatype debug_data =
    NoDebug
  | DebugLots Destination nat
  | DebugApi "BackendSlotResponse list"

text \<open>
  The state of the component \<^verbatim>\<open>ParkingApp\<close>, one field for each \<^verbatim>\<open>useState\<close>. The field
  \<open>requests\<close> is not program state: it records the body of every \<^verbatim>\<open>POST /slots\<close> the
  program has issued, so that theorems can speak about calls to the provider.
\<close>

record session =
  query :: string
  suggestions :: "Destination list"
  destination :: "Destination option"
  arrivalTime :: string
  parkingLots :: "ParkingLot list"
  selectedLotId :: "string option"
  isLoading :: bool
  notification :: "Notification option"
  debugData :: debug_data
  requests :: "string list"

section \<open>Seeding the candidate lots\<close>

text \<open>
  \<^verbatim>\<open>array.map(f)\<close> where the callback may throw: the first exception ends the traversal.
  The callback also receives the position, which selects the rearrangement of the random
  sort performed for that element.
\<close>

fun array_map :: "(nat \<Rightarrow> 'a \<Rightarrow> error + 'b) \<Rightarrow> nat \<Rightarrow> 'a list \<Rightarrow> error + 'b list" where
  "array_map f i [] = Inr []"
| "array_map f i (x # xs) =
     (case f i x of
        Inl e \<Rightarrow> Inl e
      | Inr y \<Rightarrow> (case array_map f (Suc i) xs of
                    Inl e \<Rightarrow> Inl e
                  | Inr ys \<Rightarrow> Inr (y # ys)))"

record LotSeed =
  seed_id :: string
  seed_name :: string
  seed_lat :: real
  seed_lng :: real
  seed_type :: lot_type
  seed_total_slots :: int
  baseOcc :: int

text \<open>The array \<^verbatim>\<open>lots\<close> of \<^verbatim>\<open>mockFetchParkingLots\<close>.\<close>

definition seed_lots :: "real \<Rightarrow> real \<Rightarrow> LotSeed list" where
  "seed_lots lat' lng' =
     [\<lparr>seed_id = ''1'', seed_name = ''Park A'', seed_lat = lat' + 15 / 10000,
       seed_lng = lng' - 1 / 1000, seed_type = surface, seed_total_slots = 120, baseOcc = 43\<rparr>,
      \<lparr>seed_id = ''2'', seed_name = ''Park B'', seed_lat = lat' - 1 / 1000,
       seed_lng = lng' + 2 / 1000, seed_type = multistory, seed_total_slots = 30, baseOcc = 13\<rparr>]"

text \<open>The callback of \<^verbatim>\<open>lots.map\<close>.\<close>

definition seed_lot :: "real \<Rightarrow> real \<Rightarrow> shuffle \<Rightarrow> LotSeed \<Rightarrow> error + ParkingLot" where
  "seed_lot lat' lng' sh l =
     (let occupiedCount = baseOcc l
      in case Array_fill0 (seed_total_slots l) of
           Inl e \<Rightarrow> Inl e
         | Inr zeros \<Rightarrow>
             let slots' = sh (mark_occupied occupiedCount zeros)
             in Inr \<lparr>lot_id = seed_id l,
                     name = seed_name l,
                     lat = seed_lat l,
                     lng = seed_lng l,
                     distance_m = getDistanceMeters lat' lng' (seed_lat l) (seed_lng l),
                     predicted_percent = percent_of occupiedCount (seed_total_slots l),
                     total_slots = seed_total_slots l,
                     slots = visualSlots slots',
                     lot_type = seed_type l\<rparr>)"

definition mockFetchParkingLots :: "(nat \<Rightarrow> shuffle) \<Rightarrow> real \<Rightarrow> real \<Rightarrow> error + ParkingLot list" where
  "mockFetchParkingLots sh lat' lng' =
     (case array_map (\<lambda>i. seed_lot lat' lng' (sh i)) 0 (seed_lots lat' lng') of
        Inl e \<Rightarrow> Inl e
      | Inr lots \<Rightarrow> Inr (sort_by (\<lambda>a b. js_sub (distance_m a) (distance_m b)) lots))"

section \<open>The prediction gateway\<close>

text \<open>
  What the \<^verbatim>\<open>fetch\<close> of \<^verbatim>\<open>fetchRealPrediction\<close> meets: the request fails, or a response
  arrives with a status code, a status text and a body that either is not JSON or parses
  to a list of samples. The numeric fields of a sample are integers. A body that is JSON
  of another shape is handed on unchecked by the program and is outside the model.
\<close>

datatype payload = InvalidJson | Json "BackendSlotResponse list"

datatype transport = NetworkError | Response nat string payload

text \<open>\<^verbatim>\<open>response.ok\<close>\<close>

definition response_ok :: "nat \<Rightarrow> bool" where
  "response_ok status = (200 \<le> status \<and> status \<le> 299)"

definition fallback :: "string \<Rightarrow> BackendSlotResponse list" where
  "fallback arrivalDate =
     [\<lparr>sample_id = 1, datetime = arrivalDate, sample_total_slots = 120,
       total_occupied = 43, total_empty = 77\<rparr>,
      \<lparr>sample_id = 2, datetime = arrivalDate, sample_total_slots = 30,
       total_occupied = 13, total_empty = 17\<rparr>]"

fun fetchRealPrediction :: "string \<Rightarrow> transport \<Rightarrow> BackendSlotResponse list" where
  "fetchRealPrediction arrivalDate NetworkError = fallback arrivalDate"
| "fetchRealPrediction arrivalDate (Response status statusText body) =
     (if \<not> response_ok status then fallback arrivalDate
      else case body of
             InvalidJson \<Rightarrow> fallback arrivalDate
           | Json samples \<Rightarrow> samples)"

text \<open>The transport failures: no response, a status outside 200..299, a body that is not JSON.\<close>

fun transport_fails :: "transport \<Rightarrow> bool" where
  "transport_fails NetworkError = True"
| "transport_fails (Response status statusText body) =
     (\<not> response_ok status \<or> body = InvalidJson)"

section \<open>Applying a prediction\<close>

definition high_demand :: "string \<Rightarrow> jsnum \<Rightarrow> Notification" where
  "high_demand lot_name percent =
     \<lparr>msg = ''High demand at '' @ lot_name @ '' ('' @ Number_toString percent @ ''%).'',
      ntype = warning\<rparr>"

text \<open>\<^verbatim>\<open>apiData.find((d) => d.id === parseInt(lot.id))\<close>\<close>

definition find_backendData :: "BackendSlotResponse list \<Rightarrow> ParkingLot \<Rightarrow> BackendSlotResponse option" where
  "find_backendData apiData lot =
     find (\<lambda>d. Num (of_int (sample_id d)) = parseInt (lot_id lot)) apiData"

text \<open>
  The callback of \<^verbatim>\<open>prev.map\<close> in \<^verbatim>\<open>updatePrediction\<close>: the new lot, and the notification it
  sets, if any. \<open>selectedLotId'\<close> is the selection the enclosing render captured.
\<close>

definition update_lot ::
  "string option \<Rightarrow> string option \<Rightarrow> BackendSlotResponse list \<Rightarrow> shuffle \<Rightarrow> ParkingLot
     \<Rightarrow> error + ParkingLot \<times> Notification option" where
  "update_lot forceId selectedLotId' apiData sh lot =
     (case find_backendData apiData lot of
        None \<Rightarrow> Inr (lot, None)
      | Some backendData \<Rightarrow>
          (case Array_fill0 (sample_total_slots backendData) of
             Inl e \<Rightarrow> Inl e
           | Inr zeros \<Rightarrow>
               let newSlots = sh (mark_occupied (total_occupied backendData) zeros);
                   percent = percent_of (total_occupied backendData)
                                        (sample_total_slots backendData);
                   alert = (if (forceId = Some (lot_id lot) \<or> selectedLotId' = Some (lot_id lot))
                               \<and> js_gt percent 90
                            then Some (high_demand (name lot) percent) else None)
               in Inr (lot\<lparr>predicted_percent := percent,
                           total_slots := sample_total_slots backendData,
                           slots := visualSlots newSlots\<rparr>, alert)))"

text \<open>The function passed to \<^verbatim>\<open>setParkingLots\<close>.\<close>

definition update_lots ::
  "string option \<Rightarrow> string option \<Rightarrow> BackendSlotResponse list \<Rightarrow> (nat \<Rightarrow> shuffle)
     \<Rightarrow> ParkingLot list \<Rightarrow> error + (ParkingLot \<times> Notification option) list" where
  "update_lots forceId selectedLotId' apiData sh prev =
     array_map (\<lambda>i. update_lot forceId selectedLotId' apiData (sh i)) 0 prev"

text \<open>The notifications set during one update, in order.\<close>

definition alerts_of :: "('a \<times> Notification option) list \<Rightarrow> Notification list" where
  "alerts_of rs = List.map_filter snd rs"

text \<open>The samples a refresh works with: the gateway's answer for the captured arrival time.\<close>

definition arrivalDate_of :: "session \<Rightarrow> string" where
  "arrivalDate_of render = replace_first CHR ''T'' CHR '' '' (arrivalTime render)"

definition apiData_of :: "session \<Rightarrow> transport \<Rightarrow> BackendSlotResponse list" where
  "apiData_of render tr = fetchRealPrediction (arrivalDate_of render) tr"

text \<open>
  \<^verbatim>\<open>updatePrediction(forceId)\<close>. A handler reads \<^verbatim>\<open>arrivalTime\<close> and \<^verbatim>\<open>selectedLotId\<close> from
  the render that created it (\<open>render\<close>), while the function given to
  \<^verbatim>\<open>setParkingLots\<close> receives the lot list of the state it is applied to (\<open>s\<close>). Each
  \<^verbatim>\<open>setNotification\<close> replaces the notification, so the last one set remains. The
  result is the new state together with the notifications set, in order; an exception
  in the update function is the result \<open>Inl\<close>.
\<close>

definition updatePrediction ::
  "string option \<Rightarrow> transport \<Rightarrow> (nat \<Rightarrow> shuffle) \<Rightarrow> session \<Rightarrow> session
     \<Rightarrow> error + session \<times> Notification list" where
  "updatePrediction forceId tr sh render s =
     (let apiData = apiData_of render tr
      in case update_lots forceId (selectedLotId render) apiData sh (parkingLots s) of
           Inl e \<Rightarrow> Inl e
         | Inr rs \<Rightarrow>
             Inr (s\<lparr>parkingLots := map fst rs,
                    notification := (if alerts_of rs = [] then notification s
                                     else Some (last (alerts_of rs))),
                    debugData := DebugApi apiData,
                    requests := requests s @ [arrivalDate_of render]\<rparr>,
                  alerts_of rs))"

section \<open>The handlers\<close>

text \<open>
  \<^verbatim>\<open>fetchLots\<close> runs up to its \<^verbatim>\<open>await\<close> inside the caller and resumes when the seeding
  delay has passed. Events arriving in between are not modelled: each handler runs to
  its end before the next event.
\<close>

definition fetchLots_begin :: "session \<Rightarrow> session" where
  "fetchLots_begin s = s\<lparr>isLoading := True, parkingLots := []\<rparr>"

definition fetchLots_resume :: "(nat \<Rightarrow> shuffle) \<Rightarrow> Destination \<Rightarrow> session \<Rightarrow> error + session" where
  "fetchLots_resume sh dest s =
     (case mockFetchParkingLots sh (dest_lat dest) (dest_lng dest) of
        Inl e \<Rightarrow> Inl e
      | Inr lots \<Rightarrow>
          Inr (s\<lparr>parkingLots := lots,
                 debugData := DebugLots dest (length lots),
                 isLoading := False\<rparr>))"

definition selectDestination :: "Destination \<Rightarrow> session \<Rightarrow> session" where
  "selectDestination dest s =
     (fetchLots_begin (s\<lparr>destination := Some dest, query := dest_name dest, suggestions := []\<rparr>))
       \<lparr>selectedLotId := None\<rparr>"

text \<open>Selecting a destination, up to the moment the seeded lots are shown.\<close>

definition selectDestination_settled ::
  "(nat \<Rightarrow> shuffle) \<Rightarrow> Destination \<Rightarrow> session \<Rightarrow> error + session" where
  "selectDestination_settled sh dest s = fetchLots_resume sh dest (selectDestination dest s)"

text \<open>
  \<^verbatim>\<open>handleLotSelect\<close>: \<^verbatim>\<open>updatePrediction\<close> is the one of the current render, so it still
  reads the selection from before the click; the clicked lot reaches it as \<^verbatim>\<open>forceId\<close>.
\<close>

definition handleLotSelect ::
  "transport \<Rightarrow> (nat \<Rightarrow> shuffle) \<Rightarrow> string \<Rightarrow> session \<Rightarrow> error + session \<times> Notification list" where
  "handleLotSelect tr sh ident s =
     updatePrediction (Some ident) tr sh s (s\<lparr>selectedLotId := Some ident\<rparr>)"

text \<open>
  \<^verbatim>\<open>setArrivalTime(v)\<close> followed by the effect that depends on \<^verbatim>\<open>arrivalTime\<close>: it runs when
  the value has changed, and refreshes when a destination is set.
\<close>

definition changeArrivalTime ::
  "transport \<Rightarrow> (nat \<Rightarrow> shuffle) \<Rightarrow> string \<Rightarrow> session \<Rightarrow> error + session \<times> Notification list" where
  "changeArrivalTime tr sh v s =
     (let s' = s\<lparr>arrivalTime := v\<rparr>
      in if v \<noteq> arrivalTime s \<and> destination s' \<noteq> None
         then updatePrediction None tr sh s' s' else Inr (s', []))"

text \<open>
  The two events that refresh the prediction, and a sequence of them, each with what
  the provider answers and how the random sorts fall.
\<close>

datatype event = LotSelect string | ArrivalTimeChange string

fun step :: "event \<Rightarrow> transport \<Rightarrow> (nat \<Rightarrow> shuffle) \<Rightarrow> session \<Rightarrow> error + session \<times> Notification list" where
  "step (LotSelect ident) tr sh s = handleLotSelect tr sh ident s"
| "step (ArrivalTimeChange v) tr sh s = changeArrivalTime tr sh v s"

fun refreshes :: "(event \<times> transport \<times> (nat \<Rightarrow> shuffle)) list \<Rightarrow> session \<Rightarrow> error + session" where
  "refreshes [] s = Inr s"
| "refreshes ((ev, tr, sh) # rest) s =
     (case step ev tr sh s of
        Inl e \<Rightarrow> Inl e
      | Inr (s', alerts) \<Rightarrow> refreshes rest s')"

text \<open>
  The test the update makes before it sets a notification for a lot: the lot's identifier
  is the \<^verbatim>\<open>forceId\<close> passed, or it is the selection the update reads.
\<close>

definition relevant :: "string option \<Rightarrow> string option \<Rightarrow> ParkingLot \<Rightarrow> bool" where
  "relevant forceId selectedLotId' lot =
     (forceId = Some (lot_id lot) \<or> selectedLotId' = Some (lot_id lot))"

text \<open>
  The lot a refresh is about. \<^verbatim>\<open>handleLotSelect(id)\<close> calls \<^verbatim>\<open>updatePrediction(id)\<close>: the
  lot just clicked. The effect on the arrival time calls \<^verbatim>\<open>updatePrediction()\<close>: the lot
  selected at that moment.
\<close>

definition selection_target :: "string option \<Rightarrow> string option \<Rightarrow> string option" where
  "selection_target forceId selectedLotId' =
     (case forceId of Some ident \<Rightarrow> Some ident | None \<Rightarrow> selectedLotId')"

text \<open>
  The lot whose selection a click on another lot replaces: the update is called for the
  lot clicked, and the selection it reads is still this lot.
\<close>

definition replaced_selection :: "string option \<Rightarrow> string option \<Rightarrow> ParkingLot \<Rightarrow> bool" where
  "replaced_selection forceId selectedLotId' lot =
     (forceId \<noteq> None \<and> forceId \<noteq> Some (lot_id lot) \<and> selectedLotId' = Some (lot_id lot))"

text \<open>
  No lot whose selection is being replaced comes above 90 percent in this refresh: it has
  no sample, or one whose percentage does not exceed 90.
\<close>

definition replaced_silent ::
  "string option \<Rightarrow> string option \<Rightarrow> BackendSlotResponse list \<Rightarrow> ParkingLot list \<Rightarrow> bool" where
  "replaced_silent forceId selectedLotId' apiData prev =
     (\<forall>lot\<in>set prev. replaced_selection forceId selectedLotId' lot \<longrightarrow>
        (case find_backendData apiData lot of
           None \<Rightarrow> True
         | Some d \<Rightarrow> \<not> js_gt (percent_of (total_occupied d) (sample_total_slots d)) 90))"

text \<open>The fields of a lot that say which lot it is and where.\<close>

definition lot_identity :: "ParkingLot \<Rightarrow> string \<times> string \<times> real \<times> real \<times> jsnum \<times> lot_type" where
  "lot_identity lot = (lot_id lot, name lot, lat lot, lng lot, distance_m lot, lot_type lot)"

text \<open>The aggregate figures shown for a lot.\<close>

definition figures :: "ParkingLot \<Rightarrow> string \<times> int \<times> jsnum" where
  "figures lot = (name lot, total_slots lot, predicted_percent lot)"

section \<open>Example data\<close>

definition demo_lot :: ParkingLot where
  "demo_lot = \<lparr>lot_id = ''1'', name = ''Park A'', lat = 0, lng = 0, distance_m = Num 187,
                predicted_percent = Num 36, total_slots = 120, slots = [1, 0, 0], lot_type = surface\<rparr>"

definition demo_lot2 :: ParkingLot where
  "demo_lot2 = \<lparr>lot_id = ''2'', name = ''Park B'', lat = 0, lng = 0, distance_m = Num 203,
                 predicted_percent = Num 43, total_slots = 30, slots = [0, 1], lot_type = multistory\<rparr>"

definition demo_session :: session where
  "demo_session = \<lparr>query = ''Baku Boulevard'', suggestions = [],
                    destination = Some \<lparr>dest_name = ''Baku Boulevard'', dest_lat = 0, dest_lng = 0\<rparr>,
                    arrivalTime = ''2026-03-15T14:30'', parkingLots = [demo_lot, demo_lot2],
                    selectedLotId = Some ''1'', isLoading = False, notification = None,
                    debugData = NoDebug, requests = []\<rparr>"

definition sample :: "int \<Rightarrow> int \<Rightarrow> int \<Rightarrow> BackendSlotResponse" where
  "sample ident total_slots' occupied =
     \<lparr>sample_id = ident, datetime = ''2026-03-15 14:30'', sample_total_slots = total_slots',
      total_occupied = occupied, total_empty = total_slots' - occupied\<rparr>"

definition demo_transport :: transport where
  "demo_transport = Response 200 ''OK'' (Json [sample 1 20 19])"

definition demo_shuffle :: "nat \<Rightarrow> shuffle" where
  "demo_shuffle i = rev"

definition demo_alert :: Notification where
  "demo_alert = \<lparr>msg = ''High demand at Park A (95%).'', ntype = warning\<rparr>"

definition demo_refreshed :: session where
  "demo_refreshed =
     demo_session\<lparr>parkingLots :=
                    [demo_lot\<lparr>predicted_percent := Num 95, total_slots := 20,
                              slots := [0, 1, 1, 1, 1, 1, 1, 1, 1, 1, 1, 1, 1, 1, 1, 1, 1, 1, 1, 1]\<rparr>,
                     demo_lot2],
                  notification := Some demo_alert,
                  debugData := DebugApi [sample 1 20 19],
                  requests := [''2026-03-15 14:30'']\<rparr>"

text \<open>Park B is clicked while Park A is selected; Park A is at 36 percent, Park B at 97.\<close>

definition demo_transport2 :: transport where
  "demo_transport2 = Response 200 ''OK'' (Json [sample 1 120 43, sample 2 30 29])"

definition demo_alert2 :: Notification where
  "demo_alert2 = \<lparr>msg = ''High demand at Park B (97%).'', ntype = warning\<rparr>"

definition demo_switched :: session where
  "demo_switched =
     demo_session\<lparr>parkingLots :=
                    [demo_lot\<lparr>predicted_percent := Num 36, total_slots := 120,
                              slots := replicate 50 0\<rparr>,
                     demo_lot2\<lparr>predicted_percent := Num 97, total_slots := 30,
                               slots := 0 # replicate 29 1\<rparr>],
                  selectedLotId := Some ''2'',
                  notification := Some demo_alert2,
                  debugData := DebugApi [sample 1 120 43, sample 2 30 29],
                  requests := [''2026-03-15 14:30'']\<rparr>"

section \<open>Rounding to a double: the error bound\<close>

lemma pow2_powi: "pow2 k = 2 powi k"
  by (simp add: pow2_def power_int_def field_simps)

lemma bitlength_nonneg: "0 \<le> bitlength n"
proof (induction n rule: bitlength.induct)
  case (1 n)
  show ?case
  proof (cases "n \<le> 0")
    case True
    then show ?thesis by (subst bitlength.simps) simp
  next
    case False
    with 1 have "0 \<le> bitlength (n div 2)" by simp
    with False show ?thesis by (subst bitlength.simps) simp
  qed
qed

lemma bitlength_step: "0 < n \<Longrightarrow> bitlength n = 1 + bitlength (n div 2)"
  by (subst bitlength.simps) simp

lemma bitlength_bounds: "0 < n \<Longrightarrow> 2 ^ nat (bitlength n - 1) \<le> n \<and> n < 2 ^ nat (bitlength n)"
proof (induction n rule: bitlength.induct)
  case (1 n)
  have bl: "bitlength n = 1 + bitlength (n div 2)"
    using 1(2) by (rule bitlength_step)
  show ?case
  proof (cases "n = 1")
    case True
    have "bitlength (1 div 2) = 0" by (subst bitlength.simps) simp
    with True bl show ?thesis by simp
  next
    case False
    with 1 have pos: "0 < n div 2" by simp
    from 1 pos have IH: "2 ^ nat (bitlength (n div 2) - 1) \<le> n div 2 \<and> n div 2 < 2 ^ nat (bitlength (n div 2))"
      by simp
    have bpos: "0 < bitlength (n div 2)"
      using bitlength_step [OF pos] bitlength_nonneg [of "n div 2 div 2"] by simp
    then obtain m where m: "bitlength (n div 2) = int (Suc m)"
      by (metis Suc_pred' nat_0_iff nat_int not_gr_zero of_nat_0_less_iff zless_nat_conj int_nat_eq less_le)
    from IH m have lo: "2 ^ m \<le> n div 2" and hi: "n div 2 < 2 ^ Suc m"
      by (simp_all add: nat_add_distrib)
    from lo have "2 * 2 ^ m \<le> n" by linarith
    moreover from hi have "n < 2 * 2 ^ Suc m" by linarith
    ultimately show ?thesis
      using bl m by (simp add: nat_add_distrib)
  qed
qed

lemma pow2_pos: "0 < pow2 k"
  by (simp add: pow2_powi zero_less_power_int)

lemma pow2_add: "pow2 (a + b) = pow2 a * pow2 b"
  by (simp add: pow2_powi power_int_add)

lemma pow2_less_iff: "pow2 a < pow2 b \<longleftrightarrow> a < b"
proof
  assume "pow2 a < pow2 b"
  show "a < b"
  proof (rule ccontr)
    assume "\<not> a < b"
    then have "b \<le> a" by simp
    then have "pow2 b \<le> pow2 a"
      by (simp add: pow2_powi power_int_increasing)
    with \<open>pow2 a < pow2 b\<close> show False by simp
  qed
next
  assume "a < b"
  then show "pow2 a < pow2 b"
    by (simp add: pow2_powi power_int_strict_increasing)
qed

lemma pow2_nat: "0 \<le> k \<Longrightarrow> pow2 k = 2 ^ nat k"
  by (simp add: pow2_def)

lemma binary_exponent_bounds:
  assumes "0 < x"
  shows "pow2 (binary_exponent x) \<le> x \<and> x < pow2 (binary_exponent x + 1)"
proof -
  obtain p q where pq: "quotient_of x = (p, q)" by (cases "quotient_of x")
  then have qpos: "0 < q" by (rule quotient_of_denom_pos)
  from pq have x: "x = of_int p / of_int q" by (rule quotient_of_div)
  with assms qpos have ppos: "0 < p"
    by (simp add: zero_less_divide_iff)
  define bp where "bp = bitlength p"
  define bq where "bq = bitlength q"
  from bitlength_bounds [OF ppos] have p1: "2 ^ nat (bp - 1) \<le> p" and p2: "p < 2 ^ nat bp"
    by (simp_all add: bp_def)
  from bitlength_bounds [OF qpos] have q1: "2 ^ nat (bq - 1) \<le> q" and q2: "q < 2 ^ nat bq"
    by (simp_all add: bq_def)
  have bp_pos: "1 \<le> bp"
    using bitlength_step [OF ppos] bitlength_nonneg [of "p div 2"] by (simp add: bp_def)
  have bq_pos: "1 \<le> bq"
    using bitlength_step [OF qpos] bitlength_nonneg [of "q div 2"] by (simp add: bq_def)
  have P1: "pow2 (bp - 1) \<le> of_int p"
  proof -
    have "(of_int (2 ^ nat (bp - 1)) :: rat) \<le> of_int p" using p1 by (simp only: of_int_le_iff)
    then show ?thesis using bp_pos by (simp add: pow2_nat)
  qed
  have P2: "of_int p < pow2 bp"
  proof -
    have "(of_int p :: rat) < of_int (2 ^ nat bp)" using p2 by (simp only: of_int_less_iff)
    then show ?thesis using bp_pos by (simp add: pow2_nat)
  qed
  have Q1: "pow2 (bq - 1) \<le> of_int q"
  proof -
    have "(of_int (2 ^ nat (bq - 1)) :: rat) \<le> of_int q" using q1 by (simp only: of_int_le_iff)
    then show ?thesis using bq_pos by (simp add: pow2_nat)
  qed
  have Q2: "of_int q < pow2 bq"
  proof -
    have "(of_int q :: rat) < of_int (2 ^ nat bq)" using q2 by (simp only: of_int_less_iff)
    then show ?thesis using bq_pos by (simp add: pow2_nat)
  qed
  define k where "k = bp - bq"
  have qr: "(0::rat) < of_int q" using qpos by simp
  have lower: "pow2 (k - 1) \<le> x"
  proof -
    have "pow2 (k - 1) * pow2 bq = pow2 (bp - 1)"
      unfolding k_def pow2_add [symmetric] by simp
    then have "pow2 (k - 1) * of_int q \<le> pow2 (bp - 1)"
      using Q2 pow2_pos [of "k - 1"] by (metis less_eq_rat_def mult_left_mono)
    with P1 have "pow2 (k - 1) * of_int q \<le> of_int p" by simp
    then show ?thesis using qr by (simp add: x pos_le_divide_eq)
  qed
  have upper: "x < pow2 (k + 1)"
  proof -
    have "pow2 (k + 1) * pow2 (bq - 1) = pow2 bp"
      unfolding k_def pow2_add [symmetric] by simp
    then have "pow2 bp \<le> pow2 (k + 1) * of_int q"
      using Q1 pow2_pos [of "k + 1"] by (metis less_eq_rat_def mult_left_mono)
    with P2 have "of_int p < pow2 (k + 1) * of_int q" by simp
    then show ?thesis using qr by (simp add: x pos_divide_less_eq)
  qed
  have be: "binary_exponent x = (if pow2 k \<le> x then k else k - 1)"
    by (simp add: binary_exponent_def pq bp_def bq_def k_def Let_def)
  show ?thesis
  proof (cases "pow2 k \<le> x")
    case True
    with be upper show ?thesis by simp
  next
    case False
    with be lower show ?thesis by simp
  qed
qed

lemma round_ties_even_error: "\<bar>of_int (round_ties_even y) - y\<bar> \<le> 1 / 2"
proof -
  have "of_int \<lfloor>y\<rfloor> \<le> y" "y < of_int \<lfloor>y\<rfloor> + 1" by linarith+
  then show ?thesis
    by (auto simp: round_ties_even_def Let_def)
qed

lemma fl_zero: "fl 0 = Num 0"
  by (simp add: fl_def)

lemma fl_error:
  assumes lo: "pow2 (- 1022) \<le> \<bar>x\<bar>" and hi: "\<bar>x\<bar> \<le> pow2 1023"
  shows "\<exists>r. fl x = Num r \<and> \<bar>r - x\<bar> \<le> \<bar>x\<bar> * pow2 (- 53)"
proof -
  from lo pow2_pos [of "- 1022"] have xpos: "0 < \<bar>x\<bar>" by linarith
  then have x0: "x \<noteq> 0" by simp
  define e where "e = binary_exponent \<bar>x\<bar>"
  from binary_exponent_bounds [OF xpos]
  have e1: "pow2 e \<le> \<bar>x\<bar>" and e2: "\<bar>x\<bar> < pow2 (e + 1)" by (simp_all add: e_def)
  from lo e2 have "pow2 (- 1022) < pow2 (e + 1)" by linarith
  then have "- 1022 < e + 1" by (simp only: pow2_less_iff)
  then have emax: "max e (- 1022) = e" by simp
  define ulp where "ulp = pow2 (e - 52)"
  define r where "r = of_int (round_ties_even (x / ulp)) * ulp"
  have upos: "0 < ulp" by (simp add: ulp_def pow2_pos)
  have "r - x = (of_int (round_ties_even (x / ulp)) - x / ulp) * ulp"
    using upos by (simp add: r_def field_simps)
  then have "\<bar>r - x\<bar> = \<bar>of_int (round_ties_even (x / ulp)) - x / ulp\<bar> * ulp"
    using upos by (simp add: abs_mult)
  also have "\<dots> \<le> 1 / 2 * ulp"
    using round_ties_even_error [of "x / ulp"] upos by (simp add: mult_right_mono)
  also have "1 / 2 * ulp = pow2 e * pow2 (- 53)"
  proof -
    have "pow2 e * pow2 (- 53) = pow2 (e - 52) * pow2 (- 1)"
      unfolding pow2_add [symmetric] by simp
    also have "pow2 (- 1) = 1 / 2" by (simp add: pow2_def)
    finally show ?thesis by (simp add: ulp_def)
  qed
  also have "\<dots> \<le> \<bar>x\<bar> * pow2 (- 53)"
    using e1 pow2_pos [of "- 53"] by (simp add: mult_right_mono)
  finally have err: "\<bar>r - x\<bar> \<le> \<bar>x\<bar> * pow2 (- 53)" .
  have "pow2 (- 53) \<le> 1 / 2" by (simp add: pow2_def)
  then have "\<bar>x\<bar> * pow2 (- 53) \<le> \<bar>x\<bar> * (1 / 2)"
    using xpos by (simp add: mult_left_mono)
  with err have "\<bar>r\<bar> \<le> \<bar>x\<bar> + \<bar>x\<bar> * (1 / 2)" by linarith
  also have "\<dots> < 2 * pow2 1023" using hi xpos by linarith
  also have "2 * pow2 1023 = pow2 1024"
  proof -
    have "pow2 1024 = pow2 (1 + 1023)" by simp
    also have "\<dots> = pow2 1 * pow2 1023" by (rule pow2_add)
    also have "pow2 1 = 2" by (simp add: pow2_def)
    finally show ?thesis by simp
  qed
  finally have rb: "\<bar>r\<bar> < pow2 1024" .
  then have "\<not> pow2 1024 \<le> r" "\<not> r \<le> - pow2 1024" by linarith+
  then have "fl x = Num r"
    using x0 emax by (simp add: fl_def Let_def e_def [symmetric] ulp_def [symmetric] r_def [symmetric])
  with err show ?thesis by blast
qed

lemma pow2_least: "pow2 (- 1022) \<le> 1 / 2 ^ 33"
proof -
  have "pow2 (- 1022) < pow2 (- 33)"
    by (simp add: pow2_less_iff)
  moreover have "pow2 (- 33) = 1 / 2 ^ 33" by (simp add: pow2_def)
  ultimately show ?thesis by (simp only: less_imp_le)
qed

lemma pow2_greatest: "2 ^ 8 \<le> pow2 1023"
proof -
  have "pow2 8 < pow2 1023"
    by (simp add: pow2_less_iff)
  moreover have "pow2 8 = 2 ^ 8" by (simp add: pow2_def)
  ultimately show ?thesis by (simp only: less_imp_le)
qed

lemma percent_product_near:
  assumes occ: "0 \<le> occ" "occ \<le> t" and t: "0 < t" "t < 2 ^ 32"
  shows "\<exists>r. js_mul (js_div (of_int occ) (of_int t)) 100 = Num r \<and>
             \<bar>r - of_int (100 * occ) / of_int t\<bar> < 1 / of_int (2 * t)"
proof (cases "occ = 0")
  case True
  with t show ?thesis by (simp add: js_div_def fl_zero)
next
  case False
  with occ have occ1: "1 \<le> occ" by simp
  define x :: rat where "x = of_int occ / of_int t"
  define u :: rat where "u = pow2 (- 53)"
  have uval: "u = 1 / 2 ^ 53" by (simp add: u_def pow2_def)
  have tr: "(0::rat) < of_int t" using t by simp
  have tr32: "(of_int t :: rat) < 2 ^ 32"
  proof -
    have "(of_int t :: rat) < of_int (2 ^ 32)" using t(2) by (simp only: of_int_less_iff)
    then show ?thesis by simp
  qed
  have x1: "x \<le> 1" using occ tr by (simp add: x_def)
  have "1 / of_int t \<le> x"
    using occ1 tr by (simp add: x_def divide_right_mono)
  moreover have "(1::rat) / 2 ^ 32 < 1 / of_int t"
    using tr tr32 by (simp add: frac_less2)
  ultimately have xlo: "1 / 2 ^ 32 < x" by linarith
  have "(0::rat) < 1 / 2 ^ 32" by simp
  with xlo have xpos: "0 < x" by linarith
  note p1022 = pow2_least and p1023 = pow2_greatest
  have "pow2 (- 1022) \<le> \<bar>x\<bar>" "\<bar>x\<bar> \<le> pow2 1023"
    using p1022 p1023 xlo x1 xpos by simp_all
  from fl_error [OF this] obtain r1 where r1: "fl x = Num r1" and e1: "\<bar>r1 - x\<bar> \<le> x * u"
    using xpos by (auto simp: u_def)
  have div: "js_div (of_int occ) (of_int t) = Num r1"
    using t r1 by (simp add: js_div_def x_def)
  have ub: "0 < u" "u \<le> 1 / 2" by (simp_all add: uval)
  have xu: "x * u \<le> x / 2" using ub xpos by (simp add: field_simps)
  have r1lo: "x / 2 \<le> r1" and r1hi: "r1 \<le> 2 * x" using e1 xu xpos by linarith+
  define y where "y = r1 * 100"
  have ypos: "0 < y" using r1lo xpos by (simp add: y_def)
  have "pow2 (- 1022) \<le> \<bar>y\<bar>" "\<bar>y\<bar> \<le> pow2 1023"
    using p1022 p1023 xlo x1 r1lo r1hi ypos by (simp_all add: y_def)
  from fl_error [OF this] obtain r2 where r2: "fl y = Num r2" and e2: "\<bar>r2 - y\<bar> \<le> y * u"
    using ypos by (auto simp: u_def)
  have mul: "js_mul (js_div (of_int occ) (of_int t)) 100 = Num r2"
    using div r2 by (simp add: y_def)
  have "y * u \<le> 200 * u" 
    using r1hi x1 ub by (simp add: y_def mult_right_mono)
  with e2 have a: "\<bar>r2 - y\<bar> \<le> 200 * u" by linarith
  have "x * u \<le> u" using x1 ub by (simp add: mult_right_mono)
  with e1 have "\<bar>r1 - x\<bar> \<le> u" by linarith
  then have b: "\<bar>y - 100 * x\<bar> \<le> 100 * u" by (simp add: y_def)
  from a b have "\<bar>r2 - 100 * x\<bar> \<le> 300 * u" by linarith
  also have "300 * u < 1 / 2 ^ 33" by (simp add: uval)
  also have "(1::rat) / 2 ^ 33 < 1 / of_int (2 * t)"
    using tr tr32 by (simp add: frac_less2)
  finally have "\<bar>r2 - 100 * x\<bar> < 1 / of_int (2 * t)" .
  moreover have "100 * x = of_int (100 * occ) / of_int t" by (simp add: x_def)
  ultimately show ?thesis using mul by auto
qed

text \<open>Rounding a value close to a fraction with denominator t.\<close>

lemma round_near_fraction:
  fixes r :: rat and m t :: int
  assumes t: "0 < t" and near: "\<bar>r - of_int m / of_int t\<bar> < 1 / of_int (2 * t)"
  shows "\<bar>of_int \<lfloor>r + 1 / 2\<rfloor> - of_int m / of_int t\<bar> \<le> (1 / 2 :: rat)"
    and "(2 * m + t) mod (2 * t) \<noteq> 0 \<Longrightarrow> \<lfloor>r + 1 / 2\<rfloor> = (2 * m + t) div (2 * t)"
proof -
  define D where "D = 2 * t"
  define N where "N = 2 * m + t"
  define k where "k = \<lfloor>r + 1 / 2\<rfloor>"
  define z where "z = (r + 1 / 2) - of_int N / of_int D"
  have Dpos: "0 < D" using t by (simp add: D_def)
  have Dr: "(0::rat) < of_int D" using Dpos by simp
  have tr: "(0::rat) < of_int t" using t by simp
  have v: "of_int m / of_int t + 1 / 2 = (of_int N :: rat) / of_int D"
    using tr by (simp add: N_def D_def field_simps)
  have "z = r - of_int m / of_int t" using v by (simp add: z_def)
  with near have zb: "\<bar>z\<bar> < 1 / of_int D" by (simp add: D_def)
  have zD: "z * of_int D = (r + 1 / 2) * of_int D - of_int N"
    using Dr by (simp add: z_def field_simps)
  have "\<bar>z\<bar> * of_int D < 1 / of_int D * of_int D"
    using zb Dr by (rule mult_strict_right_mono)
  then have "\<bar>z * of_int D\<bar> < 1" using Dr by (simp add: abs_mult)
  then have lo: "of_int N - 1 < (r + 1 / 2) * of_int D" and hi: "(r + 1 / 2) * of_int D < of_int N + 1"
    unfolding zD by linarith+
  have k1: "of_int k \<le> r + 1 / 2" and k2: "r + 1 / 2 < of_int k + 1"
    unfolding k_def by linarith+
  from k1 Dr have "of_int k * of_int D \<le> (r + 1 / 2) * of_int D"
    by (simp add: mult_right_mono)
  with hi have "(of_int (k * D) :: rat) < of_int (N + 1)" by simp
  then have "k * D < N + 1" by (simp only: of_int_less_iff)
  then have A: "k * D \<le> N" by linarith
  from k2 Dr have "(r + 1 / 2) * of_int D < (of_int k + 1) * of_int D"
    by (simp add: mult_strict_right_mono)
  with lo have "(of_int (N - 1) :: rat) < of_int ((k + 1) * D)" by simp
  then have "N - 1 < (k + 1) * D" by (simp only: of_int_less_iff)
  then have B: "N \<le> (k + 1) * D" by linarith
  have "(of_int (k * D) :: rat) \<le> of_int N" using A by (simp only: of_int_le_iff)
  then have a: "of_int k \<le> (of_int N :: rat) / of_int D"
    using Dr by (simp add: pos_le_divide_eq)
  have "(of_int N :: rat) \<le> of_int ((k + 1) * D)" using B by (simp only: of_int_le_iff)
  then have b: "(of_int N :: rat) / of_int D \<le> of_int k + 1"
    using Dr by (simp add: pos_divide_le_eq)
  from a b v show "\<bar>of_int \<lfloor>r + 1 / 2\<rfloor> - of_int m / of_int t\<bar> \<le> (1 / 2 :: rat)"
    unfolding k_def [symmetric] by linarith
  assume "(2 * m + t) mod (2 * t) \<noteq> 0"
  then have nz: "N mod D \<noteq> 0" by (simp add: N_def D_def)
  have "N \<noteq> (k + 1) * D" using nz by auto
  with B have B': "N < (k + 1) * D" by simp
  have "N div D = k"
    by (rule int_div_pos_eq [of _ _ _ "N - D * k"]) (use A B' in \<open>simp_all add: algebra_simps\<close>)
  then show "\<lfloor>r + 1 / 2\<rfloor> = (2 * m + t) div (2 * t)"
    by (simp add: k_def N_def D_def)
qed

section \<open>Evaluating the rounding\<close>

lemma binary_exponent_unique:
  assumes "pow2 e \<le> x" "x < pow2 (e + 1)"
  shows "binary_exponent x = e"
proof -
  from assms(1) pow2_pos [of e] have xpos: "0 < x" by linarith
  define b where "b = binary_exponent x"
  from binary_exponent_bounds [OF xpos] have b1: "pow2 b \<le> x" and b2: "x < pow2 (b + 1)"
    by (simp_all add: b_def)
  from assms(1) b2 have "pow2 e < pow2 (b + 1)" by linarith
  then have "e < b + 1" by (simp only: pow2_less_iff)
  moreover from b1 assms(2) have "pow2 b < pow2 (e + 1)" by linarith
  then have "b < e + 1" by (simp only: pow2_less_iff)
  ultimately show ?thesis by (simp add: b_def)
qed

lemma pow2_le_iff: "pow2 a \<le> pow2 b \<longleftrightarrow> a \<le> b"
  using pow2_less_iff [of b a] by (auto simp: not_less [symmetric])

lemma fl_eval:
  assumes lo: "pow2 e \<le> \<bar>x\<bar>" and hi: "\<bar>x\<bar> < pow2 (e + 1)" and e: "- 1022 \<le> e" "e \<le> 1022"
  shows "fl x = Num (of_int (round_ties_even (x / pow2 (e - 52))) * pow2 (e - 52))"
proof -
  have "pow2 (- 1022) \<le> pow2 e" using e by (simp add: pow2_le_iff)
  with lo have A: "pow2 (- 1022) \<le> \<bar>x\<bar>" by linarith
  have "pow2 (e + 1) \<le> pow2 1023" using e by (simp add: pow2_le_iff)
  with hi have B: "\<bar>x\<bar> \<le> pow2 1023" by linarith
  from fl_error [OF A B] obtain r where r: "fl x = Num r" by blast
  from lo pow2_pos [of e] have x0: "x \<noteq> 0" by auto
  have be: "binary_exponent \<bar>x\<bar> = e" using lo hi by (rule binary_exponent_unique)
  have emax: "max e (- 1022) = e" using e by simp
  show ?thesis
    using r x0 by (simp add: fl_def be emax Let_def split: if_splits)
qed

lemma round_ties_even_near:
  assumes "\<bar>x - of_int n\<bar> < 1 / 2"
  shows "round_ties_even x = n"
proof -
  have f: "of_int \<lfloor>x\<rfloor> \<le> x" "x < of_int \<lfloor>x\<rfloor> + 1" by linarith+
  show ?thesis
  proof (cases "x - of_int \<lfloor>x\<rfloor> < 1 / 2")
    case True
    with assms f have "of_int n - 1 < (of_int \<lfloor>x\<rfloor> :: rat)" "(of_int \<lfloor>x\<rfloor> :: rat) < of_int n + 1"
      by linarith+
    then have "n - 1 < \<lfloor>x\<rfloor>" "\<lfloor>x\<rfloor> < n + 1"
      by (metis of_int_1 of_int_diff of_int_less_iff, metis of_int_1 of_int_add of_int_less_iff)
    then have "\<lfloor>x\<rfloor> = n" by linarith
    with True show ?thesis by (simp add: round_ties_even_def Let_def)
  next
    case False
    have "x - of_int \<lfloor>x\<rfloor> \<noteq> 1 / 2"
    proof
      assume h: "x - of_int \<lfloor>x\<rfloor> = 1 / 2"
      with assms have "(of_int \<lfloor>x\<rfloor> :: rat) < of_int n" "(of_int n :: rat) < of_int \<lfloor>x\<rfloor> + 1"
        by linarith+
      then have "\<lfloor>x\<rfloor> < n" "n < \<lfloor>x\<rfloor> + 1"
        by (metis of_int_less_iff, metis of_int_1 of_int_add of_int_less_iff)
      then show False by linarith
    qed
    with False have gt: "1 / 2 < x - of_int \<lfloor>x\<rfloor>" by linarith
    with assms f have "of_int n - 2 < (of_int \<lfloor>x\<rfloor> :: rat)" "(of_int \<lfloor>x\<rfloor> :: rat) < of_int n"
      by linarith+
    then have "n - 2 < \<lfloor>x\<rfloor>" "\<lfloor>x\<rfloor> < n"
      by (metis of_int_diff of_int_less_iff of_int_numeral, metis of_int_less_iff)
    then have "\<lfloor>x\<rfloor> + 1 = n" by linarith
    with gt False show ?thesis by (simp add: round_ties_even_def Let_def)
  qed
qed

lemma fl_near:
  assumes "pow2 e \<le> \<bar>x\<bar>" "\<bar>x\<bar> < pow2 (e + 1)" "- 1022 \<le> e" "e \<le> 1022"
    and "\<bar>x / pow2 (e - 52) - of_int n\<bar> < 1 / 2"
  shows "fl x = Num (of_int n * pow2 (e - 52))"
  using fl_eval [OF assms(1-4)] round_ties_even_near [OF assms(5)] by simp

lemma fl_1: "fl 1 = Num 1"
  using fl_near [of 0 1 "2 ^ 52"] by (simp add: pow2_def)

lemma fl_2: "fl 2 = Num 2"
  using fl_near [of 1 2 "2 ^ 52"] by (simp add: pow2_def)

lemma parseInt_1: "parseInt ''1'' = Num 1"
  by (simp add: parseInt_def isWhiteSpace_def isRadixDigit_def digitValue_def Let_def fl_1)

lemma parseInt_2: "parseInt ''2'' = Num 2"
  by (simp add: parseInt_def isWhiteSpace_def isRadixDigit_def digitValue_def Let_def fl_2)

lemma percent_23_40: "percent_of 23 40 = Num 57"
proof -
  have a: "fl (23 / 40) = Num (2589569785738035 / 4503599627370496)"
    using fl_near [of "- 1" "23 / 40" 5179139571476070] by (simp add: pow2_def)
  have b: "fl (64739244643450875 / 1125899906842624) = Num (8092405580431359 / 140737488355328)"
    using fl_near [of 5 "64739244643450875 / 1125899906842624" 8092405580431359]
    by (simp add: pow2_def)
  show ?thesis
    by (simp add: percent_of_def js_div_def a b floor_eq_iff)
qed

lemma percent_181_200: "Math_round (js_mul (fl (181 / 200)) 100) = Num 91"
proof -
  have a: "fl (181 / 200) = Num (4075757662770299 / 4503599627370496)"
    using fl_near [of "- 1" "181 / 200" 8151515325540598] by (simp add: pow2_def)
  have b: "fl (101893941569257475 / 1125899906842624) = Num (181 / 2)"
    using fl_near [of 6 "101893941569257475 / 1125899906842624" 6368371348078592]
    by (simp add: pow2_def)
  show ?thesis
    by (simp add: a b)
qed

section \<open>The percentage\<close>

lemma percent_of_nearest:
  assumes "0 \<le> occ" "occ \<le> t" "0 < t" "t < 2 ^ 32"
  shows "\<exists>p. percent_of occ t = Num (of_int p) \<and>
             \<bar>of_int p - of_int (100 * occ) / of_int t\<bar> \<le> (1 / 2 :: rat) \<and>
             ((200 * occ + t) mod (2 * t) \<noteq> 0 \<longrightarrow> p = (200 * occ + t) div (2 * t))"
proof -
  from percent_product_near [OF assms] obtain r
    where r: "js_mul (js_div (of_int occ) (of_int t)) 100 = Num r"
      and near: "\<bar>r - of_int (100 * occ) / of_int t\<bar> < 1 / of_int (2 * t)" by blast
  have p: "percent_of occ t = Num (of_int \<lfloor>r + 1 / 2\<rfloor>)"
    by (simp add: percent_of_def r)
  from round_near_fraction [OF assms(3) near] p show ?thesis
    by (intro exI [of _ "\<lfloor>r + 1 / 2\<rfloor>"]) (simp add: algebra_simps)
qed

lemma percent_of_bounds:
  assumes "0 \<le> occ" "occ \<le> t" "0 < t" "t < 2 ^ 32" and p: "percent_of occ t = Num (of_int p)"
  shows "2 * t * p \<le> 200 * occ + t" and "200 * occ + t \<le> 2 * t * p + 2 * t"
proof -
  from percent_of_nearest [OF assms(1-4)] p
  have near: "\<bar>of_int p - of_int (100 * occ) / of_int t\<bar> \<le> (1 / 2 :: rat)" by auto
  have tr: "(0::rat) < of_int t" using assms(3) by simp
  from near have "(of_int p :: rat) - 1 / 2 \<le> of_int (100 * occ) / of_int t" by linarith
  then have "((of_int p :: rat) - 1 / 2) * of_int t \<le> of_int (100 * occ)"
    using tr by (simp add: pos_le_divide_eq)
  then have "(of_int (2 * t * p) :: rat) \<le> of_int (200 * occ + t)"
    by (simp add: algebra_simps)
  then show "2 * t * p \<le> 200 * occ + t" by (simp only: of_int_le_iff)
  from near have "of_int (100 * occ) / of_int t \<le> (of_int p :: rat) + 1 / 2" by linarith
  then have "of_int (100 * occ) \<le> ((of_int p :: rat) + 1 / 2) * of_int t"
    using tr by (simp add: pos_divide_le_eq)
  then have "(of_int (200 * occ + t) :: rat) \<le> of_int (2 * t * p + 2 * t)"
    by (simp add: algebra_simps)
  then show "200 * occ + t \<le> 2 * t * p + 2 * t" by (simp only: of_int_le_iff)
qed

lemma percent_of_gt_90_iff:
  assumes "0 \<le> occ" "occ \<le> t" "0 < t" "t < 2 ^ 32"
  shows "js_gt (percent_of occ t) 90 \<longleftrightarrow> 181 * t \<le> 200 * occ"
proof -
  from percent_of_nearest [OF assms] obtain p where p: "percent_of occ t = Num (of_int p)"
    by blast
  note b = percent_of_bounds [OF assms p]
  have gt: "js_gt (percent_of occ t) 90 \<longleftrightarrow> 91 \<le> p"
    by (simp add: p) linarith
  show ?thesis
  proof (cases "181 * t \<le> 200 * occ")
    case True
    show ?thesis
    proof (cases "181 * t = 200 * occ")
      case True
      then have "(of_int occ :: rat) * 200 = 181 * of_int t"
        by (metis mult.commute of_int_mult of_int_numeral)
      then have q: "(of_int occ :: rat) / of_int t = 181 / 200"
        using assms(3) by (simp add: field_simps)
      have "js_div (of_int occ) (of_int t) = fl (of_int occ / of_int t)"
        using assms(3) by (simp add: js_div_def)
      then have "percent_of occ t = Num 91"
        unfolding percent_of_def q using percent_181_200 by simp
      with \<open>181 * t = 200 * occ\<close> assms show ?thesis by simp
    next
      case False
      with True have "181 * t < 200 * occ" by simp
      with b(2) have "2 * t * 90 < 2 * t * p" by linarith
      then have "90 < p" using assms(3) by (simp add: mult_less_cancel_left_pos)
      with gt True show ?thesis by simp
    qed
  next
    case False
    with b(1) have "2 * t * p < 2 * t * 91" by linarith
    then have "p < 91" using assms(3) by (simp add: mult_less_cancel_left_pos)
    with gt False show ?thesis by simp
  qed
qed

lemma percent_43_120: "percent_of 43 120 = Num 36"
  using percent_of_nearest [of 43 120] by auto

lemma percent_13_30: "percent_of 13 30 = Num 43"
  using percent_of_nearest [of 13 30] by auto

lemma percent_19_21: "percent_of 19 21 = Num 90"
  using percent_of_nearest [of 19 21] by auto

section \<open>The update, lot by lot\<close>

lemma array_map_length: "array_map f i xs = Inr ys \<Longrightarrow> length ys = length xs"
  by (induction xs arbitrary: i ys) (auto split: sum.splits)

lemma array_map_nth:
  "array_map f i xs = Inr ys \<Longrightarrow> k < length xs \<Longrightarrow> f (i + k) (xs ! k) = Inr (ys ! k)"
proof (induction xs arbitrary: i ys k)
  case Nil
  then show ?case by simp
next
  case (Cons x xs)
  from Cons.prems(1) obtain y ys' where y: "f i x = Inr y" and ys': "array_map f (Suc i) xs = Inr ys'"
    and ys: "ys = y # ys'"
    by (auto split: sum.splits)
  show ?case
  proof (cases k)
    case 0
    with y ys show ?thesis by simp
  next
    case (Suc k')
    with Cons.prems(2) have "k' < length xs" by simp
    from Cons.IH [OF ys' this] Suc ys show ?thesis by simp
  qed
qed

lemma array_map_total:
  "(\<And>k. k < length xs \<Longrightarrow> \<exists>y. f (i + k) (xs ! k) = Inr y) \<Longrightarrow> \<exists>ys. array_map f i xs = Inr ys"
proof (induction xs arbitrary: i)
  case Nil
  then show ?case by simp
next
  case (Cons x xs)
  from Cons.prems [of 0] obtain y where y: "f i x = Inr y" by auto
  have "\<exists>ys. array_map f (Suc i) xs = Inr ys"
  proof (rule Cons.IH)
    fix k assume "k < length xs"
    then show "\<exists>y. f (Suc i + k) (xs ! k) = Inr y"
      using Cons.prems [of "Suc k"] by simp
  qed
  with y show ?case by auto
qed

lemma update_lot_unmatched:
  "find_backendData apiData lot = None \<Longrightarrow> update_lot forceId sel apiData sh lot = Inr (lot, None)"
  by (simp add: update_lot_def)

lemma update_lot_matched:
  assumes "find_backendData apiData lot = Some d"
    and "update_lot forceId sel apiData sh lot = Inr (lot', a)"
  shows "0 \<le> sample_total_slots d \<and> sample_total_slots d < 2 ^ 32"
    and "lot' = lot\<lparr>predicted_percent := percent_of (total_occupied d) (sample_total_slots d),
                    total_slots := sample_total_slots d,
                    slots := visualSlots (sh (mark_occupied (total_occupied d)
                                               (replicate (nat (sample_total_slots d)) 0)))\<rparr>"
    and "a = (if relevant forceId sel lot \<and> js_gt (percent_of (total_occupied d) (sample_total_slots d)) 90
              then Some (high_demand (name lot) (percent_of (total_occupied d) (sample_total_slots d)))
              else None)"
  using assms
  by (auto simp: update_lot_def Array_fill0_def relevant_def Let_def split: if_splits)

lemma update_lot_returns:
  assumes "find_backendData apiData lot = Some d" "0 \<le> sample_total_slots d" "sample_total_slots d < 2 ^ 32"
  shows "\<exists>r. update_lot forceId sel apiData sh lot = Inr r"
  using assms by (simp add: update_lot_def Array_fill0_def Let_def)

lemma update_lot_frame:
  assumes "update_lot forceId sel apiData sh lot = Inr (lot', a)"
  shows "lot' = lot\<lparr>predicted_percent := predicted_percent lot', total_slots := total_slots lot',
                    slots := slots lot'\<rparr>"
proof (cases "find_backendData apiData lot")
  case None
  with assms show ?thesis by (simp add: update_lot_unmatched)
next
  case (Some d)
  from update_lot_matched(2) [OF Some assms] show ?thesis by simp
qed

lemma updatePrediction_Inr:
  assumes "updatePrediction forceId tr sh render s = Inr (s', alerts)"
  obtains rs where "update_lots forceId (selectedLotId render) (apiData_of render tr) sh (parkingLots s) = Inr rs"
    and "parkingLots s' = map fst rs" and "alerts = alerts_of rs"
    and "notification s' = (if alerts = [] then notification s else Some (last alerts))"
    and "requests s' = requests s @ [arrivalDate_of render]"
    and "selectedLotId s' = selectedLotId s" and "destination s' = destination s"
    and "arrivalTime s' = arrivalTime s"
  using assms by (auto simp: updatePrediction_def Let_def split: sum.splits)

lemma update_lots_nth:
  assumes "update_lots forceId sel apiData sh prev = Inr rs" "i < length prev"
  shows "update_lot forceId sel apiData (sh i) (prev ! i) = Inr (rs ! i)"
  using array_map_nth [of _ 0 prev rs i] assms by (simp add: update_lots_def)

lemma update_lots_length:
  "update_lots forceId sel apiData sh prev = Inr rs \<Longrightarrow> length rs = length prev"
  by (simp add: update_lots_def array_map_length)

section \<open>The slot marks\<close>

lemma threshold_map:
  "map (\<lambda>i. if i < k then 1 else 0) [0..<n] = replicate (min k n) (1::nat) @ replicate (n - k) 0"
proof (induction n)
  case 0
  then show ?case by simp
next
  case (Suc n)
  show ?case
  proof (cases "n < k")
    case True
    then have "min k (Suc n) = Suc n" "min k n = n" "Suc n - k = 0" "n - k = 0" by simp_all
    with Suc True show ?thesis by (simp add: replicate_append_same)
  next
    case False
    then have "min k (Suc n) = k" "min k n = k" "Suc n - k = Suc (n - k)" by simp_all
    with Suc False show ?thesis by (simp add: replicate_append_same)
  qed
qed

lemma mark_occupied_eq:
  assumes "0 \<le> occ"
  shows "mark_occupied occ zeros =
           replicate (min (nat occ) (length zeros)) 1 @ replicate (length zeros - nat occ) 0"
proof -
  have "(\<lambda>idx. if int idx < occ then 1 else 0) = (\<lambda>i. if i < nat occ then (1::nat) else 0)"
    using assms by (auto simp: fun_eq_iff)
  then show ?thesis
    unfolding mark_occupied_def by (simp only: threshold_map)
qed

section \<open>One refresh, computed\<close>

lemma percent_19_20: "percent_of 19 20 = Num 95"
  using percent_of_nearest [of 19 20] by auto

lemma digits_95: "digits10 95 = ''95''"
  by (simp add: digits10.simps [of 95] digits10.simps [of 9] digit_char_def)

lemma demo_apiData: "apiData_of demo_session demo_transport = [sample 1 20 19]"
  by (simp add: apiData_of_def demo_transport_def response_ok_def)

lemma demo_arrivalDate: "arrivalDate_of demo_session = ''2026-03-15 14:30''"
  by (simp add: arrivalDate_of_def demo_session_def)

lemma demo_find1: "find_backendData [sample 1 20 19] demo_lot = Some (sample 1 20 19)"
  by (simp add: find_backendData_def demo_lot_def sample_def parseInt_1)

lemma demo_find2: "find_backendData [sample 1 20 19] demo_lot2 = None"
  by (simp add: find_backendData_def demo_lot2_def sample_def parseInt_2)

lemma demo_update1:
  "update_lot forceId (Some ''1'') [sample 1 20 19] rev demo_lot =
     Inr (demo_lot\<lparr>predicted_percent := Num 95, total_slots := 20,
                   slots := [0, 1, 1, 1, 1, 1, 1, 1, 1, 1, 1, 1, 1, 1, 1, 1, 1, 1, 1, 1]\<rparr>,
          Some demo_alert)"
proof -
  have m: "mark_occupied 19 (replicate 20 0) = [1, 1, 1, 1, 1, 1, 1, 1, 1, 1, 1, 1, 1, 1, 1, 1, 1, 1, 1, 0]"
    by (simp add: mark_occupied_eq numeral_eq_Suc)
  have n: "name demo_lot = ''Park A''" "lot_id demo_lot = ''1''" by (simp_all add: demo_lot_def)
  show ?thesis
    unfolding update_lot_def demo_find1
    by (simp add: sample_def Array_fill0_def m percent_19_20 visualSlots_def high_demand_def
        digits_95 demo_alert_def n)
qed

lemma demo_update2:
  "update_lot forceId sel [sample 1 20 19] rev demo_lot2 = Inr (demo_lot2, None)"
  by (simp add: update_lot_unmatched demo_find2)

lemma demo_refresh:
  "updatePrediction (Some ''1'') demo_transport demo_shuffle demo_session demo_session =
     Inr (demo_refreshed, [demo_alert])"
proof -
  have sel: "selectedLotId demo_session = Some ''1''"
    and lots: "parkingLots demo_session = [demo_lot, demo_lot2]"
    by (simp_all add: demo_session_def)
  have u: "update_lots (Some ''1'') (Some ''1'') [sample 1 20 19] demo_shuffle [demo_lot, demo_lot2] =
             Inr [(demo_lot\<lparr>predicted_percent := Num 95, total_slots := 20,
                   slots := [0, 1, 1, 1, 1, 1, 1, 1, 1, 1, 1, 1, 1, 1, 1, 1, 1, 1, 1, 1]\<rparr>,
                   Some demo_alert), (demo_lot2, None)]"
    by (simp add: update_lots_def demo_shuffle_def demo_update1 demo_update2)
  show ?thesis
    unfolding updatePrediction_def demo_apiData demo_arrivalDate sel lots Let_def u
    by (simp add: alerts_of_def List.map_filter_def demo_refreshed_def demo_session_def)
qed

section \<open>What a refresh keeps\<close>

lemma updatePrediction_identity:
  assumes "updatePrediction forceId tr sh render s = Inr (s', alerts)"
  shows "map lot_identity (parkingLots s') = map lot_identity (parkingLots s)"
proof -
  from assms obtain rs
    where rs: "update_lots forceId (selectedLotId render) (apiData_of render tr) sh (parkingLots s) = Inr rs"
      and lots: "parkingLots s' = map fst rs"
    by (rule updatePrediction_Inr)
  have len: "length rs = length (parkingLots s)" using rs by (rule update_lots_length)
  show ?thesis
  proof (rule nth_equalityI)
    show "length (map lot_identity (parkingLots s')) = length (map lot_identity (parkingLots s))"
      by (simp add: lots len)
  next
    fix i assume "i < length (map lot_identity (parkingLots s'))"
    then have i: "i < length (parkingLots s)" by (simp add: lots len)
    from update_lots_nth [OF rs i]
    have "update_lot forceId (selectedLotId render) (apiData_of render tr) (sh i) (parkingLots s ! i)
            = Inr (fst (rs ! i), snd (rs ! i))" by simp
    from update_lot_frame [OF this]
    have "lot_identity (fst (rs ! i)) = lot_identity (parkingLots s ! i)"
      by (metis (no_types, lifting) lot_identity_def ParkingLot.select_convs ParkingLot.surjective ParkingLot.update_convs)
    then show "map lot_identity (parkingLots s') ! i = map lot_identity (parkingLots s) ! i"
      using i by (simp add: lots len)
  qed
qed

lemma step_identity:
  assumes "step ev tr sh s = Inr (s', alerts)"
  shows "map lot_identity (parkingLots s') = map lot_identity (parkingLots s)"
proof (cases ev)
  case (LotSelect ident)
  with assms have "updatePrediction (Some ident) tr sh s (s\<lparr>selectedLotId := Some ident\<rparr>) = Inr (s', alerts)"
    by (simp add: handleLotSelect_def)
  from updatePrediction_identity [OF this] show ?thesis by simp
next
  case (ArrivalTimeChange v)
  show ?thesis
  proof (cases "v \<noteq> arrivalTime s \<and> destination s \<noteq> None")
    case True
    with assms ArrivalTimeChange
    have "updatePrediction None tr sh (s\<lparr>arrivalTime := v\<rparr>) (s\<lparr>arrivalTime := v\<rparr>) = Inr (s', alerts)"
      by (simp add: changeArrivalTime_def Let_def)
    from updatePrediction_identity [OF this] show ?thesis by simp
  next
    case False
    with assms ArrivalTimeChange have "s' = s\<lparr>arrivalTime := v\<rparr>"
      by (auto simp: changeArrivalTime_def Let_def)
    then show ?thesis by simp
  qed
qed

lemma refreshes_identity:
  "refreshes evs s = Inr s' \<Longrightarrow> map lot_identity (parkingLots s') = map lot_identity (parkingLots s)"
proof (induction evs arbitrary: s)
  case Nil
  then show ?case by simp
next
  case (Cons e evs)
  obtain ev tr sh where e: "e = (ev, tr, sh)" by (cases e)
  from Cons.prems e obtain s1 al where st: "step ev tr sh s = Inr (s1, al)" and rest: "refreshes evs s1 = Inr s'"
    by (auto split: sum.splits)
  from Cons.IH [OF rest] step_identity [OF st] show ?case by simp
qed

lemma lot_identity_id: "map lot_identity xs = map lot_identity ys \<Longrightarrow> map lot_id xs = map lot_id ys"
proof -
  assume "map lot_identity xs = map lot_identity ys"
  then have "map (fst \<circ> lot_identity) xs = map (fst \<circ> lot_identity) ys"
    by (metis map_map)
  moreover have "fst \<circ> lot_identity = lot_id" by (simp add: fun_eq_iff lot_identity_def)
  ultimately show ?thesis by simp
qed

text \<open>
  Selecting Park B while Park A is selected and at 95 percent: the update still reads the
  earlier selection, so the notification about Park A is set, though Park B was clicked.
\<close>

lemma demo_select_other:
  "handleLotSelect demo_transport demo_shuffle ''2'' demo_session =
     Inr (demo_refreshed\<lparr>selectedLotId := Some ''2''\<rparr>, [demo_alert])"
proof -
  have sel: "selectedLotId demo_session = Some ''1''"
    and lots: "parkingLots (demo_session\<lparr>selectedLotId := Some ''2''\<rparr>) = [demo_lot, demo_lot2]"
    by (simp_all add: demo_session_def)
  have u: "update_lots (Some ''2'') (Some ''1'') [sample 1 20 19] demo_shuffle [demo_lot, demo_lot2] =
             Inr [(demo_lot\<lparr>predicted_percent := Num 95, total_slots := 20,
                   slots := [0, 1, 1, 1, 1, 1, 1, 1, 1, 1, 1, 1, 1, 1, 1, 1, 1, 1, 1, 1]\<rparr>,
                   Some demo_alert), (demo_lot2, None)]"
    by (simp add: update_lots_def demo_shuffle_def demo_update1 demo_update2)
  show ?thesis
    unfolding handleLotSelect_def updatePrediction_def demo_apiData demo_arrivalDate sel lots Let_def u
    by (simp add: alerts_of_def List.map_filter_def demo_refreshed_def demo_session_def)
qed

lemma demo_select:
  "refreshes [(LotSelect ''1'', demo_transport, demo_shuffle)] demo_session = Inr demo_refreshed"
proof -
  have "demo_session\<lparr>selectedLotId := Some ''1''\<rparr> = demo_session"
    by (simp add: demo_session_def)
  then show ?thesis
    by (simp add: handleLotSelect_def demo_refresh)
qed

lemma demo_ids:
  "map lot_id (parkingLots demo_session) = [''1'', ''2'']"
  "map lot_id (parkingLots demo_refreshed) = [''1'', ''2'']"
  by (simp_all add: demo_session_def demo_refreshed_def demo_lot_def demo_lot2_def)

section \<open>The slot sequence\<close>

lemma count_list_replicate: "count_list (replicate k x) y = (if x = y then k else 0)"
  by (induction k) auto

lemma count_list_take: "count_list (take k ys) x \<le> count_list ys x"
proof -
  have "count_list (take k ys @ drop k ys) x = count_list (take k ys) x + count_list (drop k ys) x"
    by (rule count_list_append)
  then show ?thesis by simp
qed

lemma rearranges_length: "rearranges sh \<Longrightarrow> length (sh xs) = length xs"
  by (metis rearranges_def mset_eq_length)

lemma rearranges_count: "rearranges sh \<Longrightarrow> count_list (sh xs) x = count_list xs x"
  by (metis rearranges_def count_mset)

lemma rearranges_set: "rearranges sh \<Longrightarrow> set (sh xs) = set xs"
  by (metis rearranges_def mset_eq_setD)

lemma rearranges_rev: "rearranges rev"
  by (simp add: rearranges_def)

lemma synthesized_slots:
  assumes sh: "rearranges sh" and occ: "0 \<le> occ" "occ \<le> int n"
  defines "v \<equiv> visualSlots (sh (mark_occupied occ (replicate n 0)))"
  shows "length v = min n 50"
    and "set v \<subseteq> {0, 1}"
    and "n \<le> 50 \<Longrightarrow> count_list v 1 = nat occ"
    and "50 < n \<Longrightarrow> count_list v 1 \<le> min (nat occ) 50"
    and "occ = 0 \<Longrightarrow> set v \<subseteq> {0}"
    and "occ = int n \<Longrightarrow> set v \<subseteq> {1}"
proof -
  define xs where "xs = mark_occupied occ (replicate n 0)"
  have k: "nat occ \<le> n" using occ by simp
  have xs: "xs = replicate (nat occ) 1 @ replicate (n - nat occ) 0"
    using k by (simp add: xs_def mark_occupied_eq [OF occ(1)] min_absorb1)
  have len: "length (sh xs) = n" using k by (simp add: rearranges_length [OF sh] xs)
  have cnt: "count_list (sh xs) 1 = nat occ"
    by (simp add: rearranges_count [OF sh] xs count_list_replicate)
  have st: "set (sh xs) = set xs" by (rule rearranges_set [OF sh])
  have v: "v = (if 50 < n then take 50 (sh xs) else sh xs)"
    by (simp add: v_def visualSlots_def xs_def [symmetric] len)
  show "length v = min n 50" by (simp add: v len)
  have sub: "set v \<subseteq> set xs"
    using st by (auto simp: v dest: in_set_takeD)
  then show "set v \<subseteq> {0, 1}" by (auto simp: xs)
  show "count_list v 1 = nat occ" if "n \<le> 50" using that cnt by (simp add: v)
  show "count_list v 1 \<le> min (nat occ) 50" if "50 < n"
  proof -
    have "count_list (take 50 (sh xs)) 1 \<le> nat occ"
      using count_list_take [of 50 "sh xs" 1] cnt by simp
    moreover have "count_list (take 50 (sh xs)) 1 \<le> length (take 50 (sh xs))"
      by (rule count_le_length)
    ultimately show ?thesis using that len by (simp add: v)
  qed
  show "set v \<subseteq> {0}" if "occ = 0" using sub that by (auto simp: xs)
  show "set v \<subseteq> {1}" if "occ = int n" using sub that by (auto simp: xs)
qed

lemma seed_lot_Inr:
  assumes "seed_lot lat' lng' sh l = Inr lot"
  shows "0 \<le> seed_total_slots l \<and> seed_total_slots l < 2 ^ 32"
    and "slots lot = visualSlots (sh (mark_occupied (baseOcc l) (replicate (nat (seed_total_slots l)) 0)))"
    and "predicted_percent lot = percent_of (baseOcc l) (seed_total_slots l)"
    and "total_slots lot = seed_total_slots l" and "name lot = seed_name l" and "lot_id lot = seed_id l"
  using assms by (auto simp: seed_lot_def Array_fill0_def Let_def split: if_splits)

section \<open>Seeding, and updating with the fallback\<close>

lemma insert_by_mset: "mset (insert_by compare x ys) = add_mset x (mset ys)"
  by (induction ys) auto

lemma sort_by_mset: "mset (sort_by compare xs) = mset xs"
  by (induction xs) (auto simp: sort_by_def insert_by_mset)

lemma seed_lot_figures:
  "\<exists>a b. array_map (\<lambda>i. seed_lot lat' lng' (sh i)) 0 (seed_lots lat' lng') = Inr [a, b]
     \<and> figures a = (''Park A'', 120, Num 36) \<and> lot_id a = ''1''
     \<and> figures b = (''Park B'', 30, Num 43) \<and> lot_id b = ''2''"
  by (simp add: seed_lots_def seed_lot_def Array_fill0_def Let_def figures_def
      percent_43_120 percent_13_30)

lemma mockFetchParkingLots_returns:
  "\<exists>lots a b. mockFetchParkingLots sh lat' lng' = Inr lots \<and> mset lots = {#a, b#}
     \<and> figures a = (''Park A'', 120, Num 36) \<and> lot_id a = ''1''
     \<and> figures b = (''Park B'', 30, Num 43) \<and> lot_id b = ''2''"
proof -
  from seed_lot_figures [of lat' lng' sh] obtain a b
    where ab: "array_map (\<lambda>i. seed_lot lat' lng' (sh i)) 0 (seed_lots lat' lng') = Inr [a, b]"
      and f: "figures a = (''Park A'', 120, Num 36)" "lot_id a = ''1''"
             "figures b = (''Park B'', 30, Num 43)" "lot_id b = ''2''"
    by blast
  have "mockFetchParkingLots sh lat' lng' =
          Inr (sort_by (\<lambda>a b. js_sub (distance_m a) (distance_m b)) [a, b])"
    by (simp add: mockFetchParkingLots_def ab)
  moreover have "mset (sort_by (\<lambda>a b. js_sub (distance_m a) (distance_m b)) [a, b]) = {#a, b#}"
    by (simp add: sort_by_mset)
  ultimately show ?thesis using f by blast
qed

lemma find_fallback_1:
  "lot_id l = ''1'' \<Longrightarrow> find_backendData (fallback date) l = Some (hd (fallback date))"
  by (simp add: find_backendData_def fallback_def parseInt_1)

lemma find_fallback_2:
  "lot_id l = ''2'' \<Longrightarrow> find_backendData (fallback date) l = Some (fallback date ! 1)"
  by (simp add: find_backendData_def fallback_def parseInt_2)

lemma update_lot_fallback:
  assumes "(figures l = (''Park A'', 120, Num 36) \<and> lot_id l = ''1'')
         \<or> (figures l = (''Park B'', 30, Num 43) \<and> lot_id l = ''2'')"
  shows "\<exists>l' a. update_lot forceId sel (fallback date) sh l = Inr (l', a) \<and> figures l' = figures l
           \<and> a = None"
  using assms
proof
  assume h: "figures l = (''Park A'', 120, Num 36) \<and> lot_id l = ''1''"
  then have "find_backendData (fallback date) l = Some (hd (fallback date))"
    by (simp add: find_fallback_1)
  then show ?thesis using h
    by (simp add: update_lot_def fallback_def Array_fill0_def Let_def percent_43_120 figures_def)
next
  assume h: "figures l = (''Park B'', 30, Num 43) \<and> lot_id l = ''2''"
  then have "find_backendData (fallback date) l = Some (fallback date ! 1)"
    by (simp add: find_fallback_2)
  then show ?thesis using h
    by (simp add: update_lot_def fallback_def Array_fill0_def Let_def percent_13_30 figures_def)
qed

lemma update_lots_pointwise:
  assumes "\<And>l sh'. l \<in> set prev \<Longrightarrow> \<exists>l' a. update_lot forceId sel api sh' l = Inr (l', a) \<and> P l l' a"
  shows "\<exists>rs. update_lots forceId sel api sh prev = Inr rs \<and> length rs = length prev
           \<and> (\<forall>i<length prev. P (prev ! i) (fst (rs ! i)) (snd (rs ! i)))"
proof -
  have "\<exists>rs. array_map (\<lambda>i. update_lot forceId sel api (sh i)) 0 prev = Inr rs"
  proof (rule array_map_total)
    fix k assume "k < length prev"
    then have "prev ! k \<in> set prev" by simp
    from assms [OF this] show "\<exists>y. update_lot forceId sel api (sh (0 + k)) (prev ! k) = Inr y"
      by blast
  qed
  then obtain rs where rs: "update_lots forceId sel api sh prev = Inr rs"
    by (auto simp: update_lots_def)
  have "P (prev ! i) (fst (rs ! i)) (snd (rs ! i))" if "i < length prev" for i
  proof -
    from that have "prev ! i \<in> set prev" by simp
    from assms [OF this, of "sh i"] update_lots_nth [OF rs that] show ?thesis by auto
  qed
  with rs update_lots_length [OF rs] show ?thesis by blast
qed

lemma fetch_fails: "transport_fails tr \<Longrightarrow> fetchRealPrediction date tr = fallback date"
  by (cases tr) (auto split: payload.splits)

lemma alerts_of_none: "(\<forall>i<length rs. snd (rs ! i) = None) \<Longrightarrow> alerts_of rs = []"
proof (induction rs)
  case Nil
  then show ?case by (simp add: alerts_of_def List.map_filter_def)
next
  case (Cons r rs)
  from Cons.prems have "snd r = None" by (metis length_Cons nth_Cons_0 zero_less_Suc)
  moreover have "\<forall>i<length rs. snd (rs ! i) = None"
    using Cons.prems by (metis Suc_less_eq length_Cons nth_Cons_Suc)
  ultimately show ?case using Cons.IH by (simp add: alerts_of_def List.map_filter_def)
qed

lemma selectDestination_settled_eq:
  "mockFetchParkingLots sh (dest_lat dest) (dest_lng dest) = Inr lots \<Longrightarrow>
   selectDestination_settled sh dest s =
     Inr (s\<lparr>destination := Some dest, query := dest_name dest, suggestions := [],
            isLoading := False, parkingLots := lots, selectedLotId := None,
            debugData := DebugLots dest (length lots)\<rparr>)"
  by (simp add: selectDestination_settled_def selectDestination_def fetchLots_begin_def
      fetchLots_resume_def)

section \<open>Rounding half up, exactly\<close>

lemma half_up_exact:
  fixes occ t :: int
  assumes "0 < t"
  defines "v \<equiv> (100 * of_int occ / of_int t :: rat)"
  shows "\<lfloor>v + 1 / 2\<rfloor> = (200 * occ + t) div (2 * t)"
    and "of_int \<lfloor>v + 1 / 2\<rfloor> \<noteq> v + 1 / 2 \<Longrightarrow> (200 * occ + t) mod (2 * t) \<noteq> 0"
proof -
  have tr: "(of_int t :: rat) \<noteq> 0" using assms(1) by simp
  have vv: "v + 1 / 2 = of_int (200 * occ + t) / of_int (2 * t)"
    using tr by (simp add: v_def field_simps)
  show fl: "\<lfloor>v + 1 / 2\<rfloor> = (200 * occ + t) div (2 * t)"
    unfolding vv by (rule floor_divide_of_int_eq)
  assume ne: "of_int \<lfloor>v + 1 / 2\<rfloor> \<noteq> v + 1 / 2"
  show "(200 * occ + t) mod (2 * t) \<noteq> 0"
  proof
    assume "(200 * occ + t) mod (2 * t) = 0"
    then have "200 * occ + t = 2 * t * ((200 * occ + t) div (2 * t))"
      using mult_div_mod_eq [of "2 * t" "200 * occ + t"] by simp
    then have "(of_int (200 * occ + t) :: rat) = of_int (2 * t * ((200 * occ + t) div (2 * t)))"
      by (simp only: )
    then have "(of_int (200 * occ + t) :: rat) = of_int (2 * t) * of_int ((200 * occ + t) div (2 * t))"
      by (simp only: of_int_mult)
    then have "(of_int (200 * occ + t) :: rat) / of_int (2 * t) = of_int ((200 * occ + t) div (2 * t))"
      using tr by simp
    with ne show False by (simp add: vv fl [unfolded vv])
  qed
qed

lemma percent_23_40_exact: "\<lfloor>(100 * 23 / 40 :: rat) + 1 / 2\<rfloor> = 58" "round_ties_even (100 * 23 / 40) = 58"
proof -
  show "\<lfloor>(100 * 23 / 40 :: rat) + 1 / 2\<rfloor> = 58" by simp
  have "\<lfloor>(115 / 2 :: rat)\<rfloor> = 57" by (simp add: floor_eq_iff)
  then show "round_ties_even (100 * 23 / 40) = 58"
    by (simp add: round_ties_even_def)
qed

section \<open>The notifications of an update\<close>

lemma alerts_of_Cons:
  "alerts_of (r # rs) = (case snd r of None \<Rightarrow> alerts_of rs | Some a \<Rightarrow> a # alerts_of rs)"
  by (simp add: alerts_of_def List.map_filter_def split: option.splits)

lemma alerts_single:
  assumes "i < length rs" "\<forall>j<length rs. j \<noteq> i \<longrightarrow> snd (rs ! j) = None"
  shows "alerts_of rs = (case snd (rs ! i) of None \<Rightarrow> [] | Some a \<Rightarrow> [a])"
  using assms
proof (induction rs arbitrary: i)
  case Nil
  then show ?case by simp
next
  case (Cons r rs)
  show ?case
  proof (cases i)
    case 0
    have "\<forall>j<length rs. snd (rs ! j) = None"
    proof (intro allI impI)
      fix j assume "j < length rs"
      with Cons.prems(2) [rule_format, of "Suc j"] 0 show "snd (rs ! j) = None" by simp
    qed
    then have "alerts_of rs = []" by (rule alerts_of_none)
    with 0 show ?thesis by (simp add: alerts_of_Cons split: option.splits)
  next
    case (Suc k)
    with Cons.prems(2) [rule_format, of 0] have r: "snd r = None" by simp
    have k: "k < length rs" using Cons.prems(1) Suc by simp
    have "\<forall>j<length rs. j \<noteq> k \<longrightarrow> snd (rs ! j) = None"
    proof (intro allI impI)
      fix j assume "j < length rs" "j \<noteq> k"
      with Cons.prems(2) [rule_format, of "Suc j"] Suc show "snd (rs ! j) = None" by simp
    qed
    from Cons.IH [OF k this] r Suc show ?thesis by (simp add: alerts_of_Cons)
  qed
qed

lemma update_lot_irrelevant:
  assumes "\<not> relevant forceId sel lot" "update_lot forceId sel api sh lot = Inr (l', a)"
  shows "a = None"
proof (cases "find_backendData api lot")
  case None
  with assms(2) show ?thesis by (simp add: update_lot_unmatched)
next
  case (Some d)
  from update_lot_matched(3) [OF Some assms(2)] assms(1) show ?thesis by simp
qed

section \<open>The distance at two points\<close>

lemma arctan_sqrt3: "arctan (sqrt 3) = pi / 3"
proof (rule arctan_unique)
  show "- (pi / 2) < pi / 3" using pi_gt_zero by linarith
  show "pi / 3 < pi / 2" using pi_gt_zero by linarith
  show "tan (pi / 3) = sqrt 3" by (rule tan_60)
qed

lemma distance_forward:
  "getDistanceMeters 0 0 60 90 = Num (of_int \<lfloor>6371000 * (2 * (pi / 3)) + 1 / 2\<rfloor>)"
proof -
  have s45: "sin (pi / 4) * sin (pi / 4) = 1 / 2" by (simp add: sin_45)
  have a: "sin (pi / 6) * sin (pi / 6) + cos 0 * cos 0 * sin (pi / 4) * sin (pi / 4) = (3 / 4 :: real)"
    using s45 by (simp add: sin_30)
  have r1: "sqrt (3 / 4) = sqrt 3 / 2" by (simp add: real_sqrt_divide)
  have r2: "sqrt (1 - 3 / 4) = 1 / 2" by (simp add: real_sqrt_divide)
  have at: "atan2 (sqrt (3 / 4)) (sqrt (1 - 3 / 4)) = pi / 3"
    unfolding r1 r2 by (simp add: atan2_def arctan_sqrt3)
  have "getDistanceMeters 0 0 60 90 =
          (let a = sin (pi / 6) * sin (pi / 6) + cos 0 * cos 0 * sin (pi / 4) * sin (pi / 4)
           in if a < 0 \<or> 1 - a < 0 then NaN
              else Num (of_int \<lfloor>6371000 * (2 * atan2 (sqrt a) (sqrt (1 - a))) + 1 / 2\<rfloor>))"
    by (simp add: getDistanceMeters_def Let_def)
  also have "\<dots> = Num (of_int \<lfloor>6371000 * (2 * (pi / 3)) + 1 / 2\<rfloor>)"
    unfolding a Let_def at by simp
  finally show ?thesis .
qed

lemma distance_backward:
  "\<exists>c. getDistanceMeters 60 90 0 0 = Num (of_int \<lfloor>6371000 * (2 * c) + 1 / 2\<rfloor>) \<and> c < pi / 4"
proof -
  have s45: "sin (pi / 4) * sin (pi / 4) = 1 / 2" by (simp add: sin_45)
  have a: "sin (pi / 6) * sin (pi / 6) + cos (pi / 3) * cos (pi / 3) * (sin (pi / 4) * sin (pi / 4)) = (3 / 8 :: real)"
    unfolding s45 by (simp add: sin_30 cos_60)
  have "getDistanceMeters 60 90 0 0 =
          (let a = sin (pi / 6) * sin (pi / 6) + cos (pi / 3) * cos (pi / 3) * (sin (pi / 4) * sin (pi / 4))
           in if a < 0 \<or> 1 - a < 0 then NaN
              else Num (of_int \<lfloor>6371000 * (2 * atan2 (sqrt a) (sqrt (1 - a))) + 1 / 2\<rfloor>))"
    by (simp add: getDistanceMeters_def Let_def mult.assoc)
  also have "\<dots> = Num (of_int \<lfloor>6371000 * (2 * atan2 (sqrt (3 / 8)) (sqrt (1 - 3 / 8))) + 1 / 2\<rfloor>)"
    unfolding a Let_def by simp
  finally have g: "getDistanceMeters 60 90 0 0 =
      Num (of_int \<lfloor>6371000 * (2 * atan2 (sqrt (3 / 8)) (sqrt (1 - 3 / 8))) + 1 / 2\<rfloor>)" .
  have pos: "0 < sqrt (1 - 3 / 8 :: real)" by simp
  have "sqrt (3 / 8 :: real) < sqrt (1 - 3 / 8)" by simp
  then have "sqrt (3 / 8 :: real) / sqrt (1 - 3 / 8) < 1" using pos by simp
  then have "arctan (sqrt (3 / 8 :: real) / sqrt (1 - 3 / 8)) < arctan 1"
    by (simp only: arctan_less_iff)
  then have "atan2 (sqrt (3 / 8)) (sqrt (1 - 3 / 8)) < pi / 4"
    using pos by (simp add: atan2_def arctan_one)
  with g show ?thesis by blast
qed

lemma distance_zero: "getDistanceMeters lat' lon lat' lon = Num 0"
  by (simp add: getDistanceMeters_def atan2_def)

section \<open>The threshold, for every sample\<close>

lemma fl_cases:
  assumes lo: "pow2 (- 1022) \<le> \<bar>x\<bar>"
  shows "\<exists>r. \<bar>r - x\<bar> \<le> \<bar>x\<bar> * pow2 (- 53)
           \<and> (fl x = Num r \<or> fl x = PosInf \<and> 0 < r \<or> fl x = NegInf \<and> r < 0)"
proof -
  from lo pow2_pos [of "- 1022"] have xpos: "0 < \<bar>x\<bar>" by linarith
  then have x0: "x \<noteq> 0" by simp
  define e where "e = binary_exponent \<bar>x\<bar>"
  from binary_exponent_bounds [OF xpos]
  have e1: "pow2 e \<le> \<bar>x\<bar>" and e2: "\<bar>x\<bar> < pow2 (e + 1)" by (simp_all add: e_def)
  from lo e2 have "pow2 (- 1022) < pow2 (e + 1)" by linarith
  then have "- 1022 < e + 1" by (simp only: pow2_less_iff)
  then have emax: "max e (- 1022) = e" by simp
  define ulp where "ulp = pow2 (e - 52)"
  define r where "r = of_int (round_ties_even (x / ulp)) * ulp"
  have upos: "0 < ulp" by (simp add: ulp_def pow2_pos)
  have "r - x = (of_int (round_ties_even (x / ulp)) - x / ulp) * ulp"
    using upos by (simp add: r_def field_simps)
  then have "\<bar>r - x\<bar> = \<bar>of_int (round_ties_even (x / ulp)) - x / ulp\<bar> * ulp"
    using upos by (simp add: abs_mult)
  also have "\<dots> \<le> 1 / 2 * ulp"
    using round_ties_even_error [of "x / ulp"] upos by (simp add: mult_right_mono)
  also have "1 / 2 * ulp = pow2 e * pow2 (- 53)"
  proof -
    have "pow2 e * pow2 (- 53) = pow2 (e - 52) * pow2 (- 1)"
      unfolding pow2_add [symmetric] by simp
    also have "pow2 (- 1) = 1 / 2" by (simp add: pow2_def)
    finally show ?thesis by (simp add: ulp_def)
  qed
  also have "\<dots> \<le> \<bar>x\<bar> * pow2 (- 53)"
    using e1 pow2_pos [of "- 53"] by (simp add: mult_right_mono)
  finally have err: "\<bar>r - x\<bar> \<le> \<bar>x\<bar> * pow2 (- 53)" .
  have p: "0 < pow2 1024" by (rule pow2_pos)
  have f: "fl x = (if pow2 1024 \<le> r then PosInf else if r \<le> - pow2 1024 then NegInf else Num r)"
    using x0 emax by (simp add: fl_def Let_def e_def [symmetric] ulp_def [symmetric] r_def [symmetric])
  have "fl x = Num r \<or> fl x = PosInf \<and> 0 < r \<or> fl x = NegInf \<and> r < 0"
    unfolding f using p by auto
  with err show ?thesis by blast
qed

lemma pow2_m53: "pow2 (- 53) = 1 / 2 ^ 53"
  by (simp add: pow2_def)

lemma percent_of_above:
  assumes t: "0 < t" and occ: "t < occ"
  shows "js_gt (percent_of occ t) 90"
proof -
  define x :: rat where "x = of_int occ / of_int t"
  define u :: rat where "u = pow2 (- 53)"
  have ub: "0 < u" "u \<le> 1 / 100" by (simp_all add: u_def pow2_m53)
  have tr: "(0::rat) < of_int t" using t by simp
  have "(of_int t :: rat) < of_int occ" using occ by (simp only: of_int_less_iff)
  then have x1: "1 < x" using tr by (simp add: x_def)
  have lo: "pow2 (- 1022) \<le> \<bar>x\<bar>" using pow2_least x1 by simp
  have div: "js_div (of_int occ) (of_int t) = fl x" using t by (simp add: js_div_def x_def)
  from fl_cases [OF lo] obtain r
    where e1: "\<bar>r - x\<bar> \<le> \<bar>x\<bar> * u"
      and c1: "fl x = Num r \<or> fl x = PosInf \<and> 0 < r \<or> fl x = NegInf \<and> r < 0"
    unfolding u_def by (elim exE conjE)
  have "x * u \<le> x * (1 / 100)" using ub x1 by (intro mult_left_mono) simp_all
  moreover have "\<bar>x\<bar> = x" using x1 by simp
  ultimately have rlo: "99 / 100 < r" using e1 x1 by linarith
  from c1 rlo have c1': "fl x = Num r \<or> fl x = PosInf" by auto
  show ?thesis
  proof (cases "fl x = PosInf")
    case True
    then show ?thesis by (simp add: percent_of_def div)
  next
    case False
    with c1' have fx: "fl x = Num r" by simp
    define y where "y = r * 100"
    have y1: "99 < y" using rlo by (simp add: y_def)
    have lo2: "pow2 (- 1022) \<le> \<bar>y\<bar>" using pow2_least y1 by simp
    from fl_cases [OF lo2] obtain r2
      where e2: "\<bar>r2 - y\<bar> \<le> \<bar>y\<bar> * u"
        and c2: "fl y = Num r2 \<or> fl y = PosInf \<and> 0 < r2 \<or> fl y = NegInf \<and> r2 < 0"
      unfolding u_def by (elim exE conjE)
    have "y * u \<le> y * (1 / 100)" using ub y1 by (intro mult_left_mono) simp_all
    moreover have "\<bar>y\<bar> = y" using y1 by simp
    ultimately have r2lo: "98 < r2" using e2 y1 by linarith
    from c2 r2lo have c2': "fl y = Num r2 \<or> fl y = PosInf" by auto
    have mul: "js_mul (js_div (of_int occ) (of_int t)) 100 = fl y"
      by (simp add: div fx y_def)
    show ?thesis
    proof (cases "fl y = PosInf")
      case True
      then show ?thesis by (simp add: percent_of_def mul)
    next
      case False
      with c2' have fy: "fl y = Num r2" by simp
      have "(of_int 98 :: rat) \<le> r2 + 1 / 2" using r2lo by simp
      then have "98 \<le> \<lfloor>r2 + 1 / 2\<rfloor>" by (simp only: le_floor_iff)
      then have "(of_int 98 :: rat) \<le> of_int \<lfloor>r2 + 1 / 2\<rfloor>" by (simp only: of_int_le_iff)
      then have "(90::rat) < of_int \<lfloor>r2 + 1 / 2\<rfloor>" by simp
      then show ?thesis by (simp add: percent_of_def mul fy)
    qed
  qed
qed

lemma percent_of_below:
  assumes t: "0 < t" "t < 2 ^ 32" and occ: "occ < 0"
  shows "\<not> js_gt (percent_of occ t) 90"
proof -
  define x :: rat where "x = of_int occ / of_int t"
  define u :: rat where "u = pow2 (- 53)"
  have ub: "0 < u" "u \<le> 1 / 100" by (simp_all add: u_def pow2_m53)
  have tr: "(0::rat) < of_int t" using t by simp
  have tr32: "(of_int t :: rat) < 2 ^ 32"
  proof -
    have "(of_int t :: rat) < of_int (2 ^ 32)" using t(2) by (simp only: of_int_less_iff)
    then show ?thesis by simp
  qed
  have "occ \<le> - 1" using occ by simp
  then have "(of_int occ :: rat) \<le> of_int (- 1)" by (simp only: of_int_le_iff)
  then have "(of_int occ :: rat) \<le> - 1" by simp
  then have "x \<le> - 1 / of_int t"
    using divide_right_mono [of "of_int occ" "- 1" "of_int t"] tr by (simp add: x_def)
  moreover have "(1::rat) / 2 ^ 32 < 1 / of_int t"
    using tr tr32 by (simp add: frac_less2)
  ultimately have xhi: "x < - (1 / 2 ^ 32)" by linarith
  have lo: "pow2 (- 1022) \<le> \<bar>x\<bar>" using pow2_least xhi by simp
  have div: "js_div (of_int occ) (of_int t) = fl x" using t by (simp add: js_div_def x_def)
  from fl_cases [OF lo] obtain r
    where e1: "\<bar>r - x\<bar> \<le> \<bar>x\<bar> * u"
      and c1: "fl x = Num r \<or> fl x = PosInf \<and> 0 < r \<or> fl x = NegInf \<and> r < 0"
    unfolding u_def by (elim exE conjE)
  have xneg: "x < 0" using xhi by simp
  have "\<bar>x\<bar> * u \<le> \<bar>x\<bar> * (1 / 100)" using ub by (intro mult_left_mono) simp_all
  moreover have "\<bar>x\<bar> = - x" using xneg by simp
  ultimately have rhi: "r \<le> x * (99 / 100)" using e1 by linarith
  have "x * (99 / 100) < - (1 / 2 ^ 32) * (99 / 100)"
    using xhi by (intro mult_strict_right_mono) simp_all
  also have "- (1 / 2 ^ 32) * (99 / 100) < - (1 / 2 ^ 33 :: rat)" by simp
  finally have "x * (99 / 100) < - (1 / 2 ^ 33)" .
  with rhi have rhi': "r < - (1 / 2 ^ 33)" by (rule le_less_trans)
  from c1 rhi' have c1': "fl x = Num r \<or> fl x = NegInf" by auto
  show ?thesis
  proof (cases "fl x = NegInf")
    case True
    then show ?thesis by (simp add: percent_of_def div)
  next
    case False
    with c1' have fx: "fl x = Num r" by simp
    define y where "y = r * 100"
    have y1: "y < - (1 / 2 ^ 33)" using rhi' by (simp add: y_def)
    have lo2: "pow2 (- 1022) \<le> \<bar>y\<bar>" using pow2_least y1 by simp
    from fl_cases [OF lo2] obtain r2
      where e2: "\<bar>r2 - y\<bar> \<le> \<bar>y\<bar> * u"
        and c2: "fl y = Num r2 \<or> fl y = PosInf \<and> 0 < r2 \<or> fl y = NegInf \<and> r2 < 0"
      unfolding u_def by (elim exE conjE)
    have yneg: "y < 0" using y1 by simp
    have "\<bar>y\<bar> * u \<le> \<bar>y\<bar> * (1 / 100)" using ub by (intro mult_left_mono) simp_all
    moreover have "\<bar>y\<bar> = - y" using yneg by simp
    ultimately have r2hi: "r2 < 0" using e2 yneg by linarith
    from c2 r2hi have c2': "fl y = Num r2 \<or> fl y = NegInf" by auto
    have mul: "js_mul (js_div (of_int occ) (of_int t)) 100 = fl y"
      by (simp add: div fx y_def)
    show ?thesis
    proof (cases "fl y = NegInf")
      case True
      then show ?thesis by (simp add: percent_of_def mul)
    next
      case False
      with c2' have fy: "fl y = Num r2" by simp
      have "r2 + 1 / 2 < of_int 1" using r2hi by simp
      then have "\<lfloor>r2 + 1 / 2\<rfloor> < 1" by (simp only: floor_less_iff)
      then have "\<lfloor>r2 + 1 / 2\<rfloor> \<le> 90" by simp
      then have "(of_int \<lfloor>r2 + 1 / 2\<rfloor> :: rat) \<le> of_int 90" by (simp only: of_int_le_iff)
      then have "\<not> (90::rat) < of_int \<lfloor>r2 + 1 / 2\<rfloor>" by simp
      then show ?thesis by (simp add: percent_of_def mul fy)
    qed
  qed
qed

lemma percent_of_gt_90:
  assumes "0 \<le> t" "t < 2 ^ 32"
  shows "js_gt (percent_of occ t) 90 \<longleftrightarrow> (if t = 0 then 0 < occ else 181 * t \<le> 200 * occ)"
proof (cases "t = 0")
  case True
  then show ?thesis by (simp add: percent_of_def js_div_def)
next
  case False
  with assms(1) have t: "0 < t" by simp
  consider "occ < 0" | "0 \<le> occ" "occ \<le> t" | "t < occ" by linarith
  then show ?thesis
  proof cases
    case 1
    from percent_of_below [OF t assms(2) 1] 1 t False show ?thesis by simp
  next
    case 2
    from percent_of_gt_90_iff [OF 2 t assms(2)] False show ?thesis by simp
  next
    case 3
    from percent_of_above [OF t 3] 3 t False show ?thesis by simp
  qed
qed

section \<open>Selecting another lot\<close>

lemma relevant_iff:
  "relevant forceId sel lot \<longleftrightarrow>
     selection_target forceId sel = Some (lot_id lot) \<or> replaced_selection forceId sel lot"
  by (cases forceId) (auto simp: relevant_def selection_target_def replaced_selection_def)

text \<open>
  No selection is replaced when the update is called without a lot, when no lot was
  selected, and when the lot clicked is the one selected.
\<close>

lemma replaced_silent_cases:
  "replaced_silent None sel api prev"
  "replaced_silent (Some ident) None api prev"
  "replaced_silent (Some ident) (Some ident) api prev"
  by (auto simp: replaced_silent_def replaced_selection_def)

lemma update_lot_silent:
  assumes "update_lot forceId sel api sh lot = Inr (l', a)"
    and "case find_backendData api lot of
           None \<Rightarrow> True
         | Some d \<Rightarrow> \<not> js_gt (percent_of (total_occupied d) (sample_total_slots d)) 90"
  shows "a = None"
proof (cases "find_backendData api lot")
  case None
  with assms(1) show ?thesis by (simp add: update_lot_unmatched)
next
  case (Some d)
  from update_lot_matched(3) [OF Some assms(1)] assms(2) Some show ?thesis by simp
qed

lemma distinct_ids_nth:
  assumes "distinct (map lot_id prev)" "i < length prev" "j < length prev" "j \<noteq> i"
  shows "lot_id (prev ! j) \<noteq> lot_id (prev ! i)"
proof -
  have "map lot_id prev ! j = map lot_id prev ! i \<longleftrightarrow> j = i"
    using assms(1-3) by (intro nth_eq_iff_index_eq) simp_all
  with assms(2-4) show ?thesis by simp
qed

lemma sample_sel:
  "sample_id (sample ident t occ) = ident" "sample_total_slots (sample ident t occ) = t"
  "total_occupied (sample ident t occ) = occ"
  by (simp_all add: sample_def)

lemma percent_29_30: "percent_of 29 30 = Num 97"
  using percent_of_nearest [of 29 30] by auto

lemma digits_97: "digits10 97 = ''97''"
  by (simp add: digits10.simps [of 97] digits10.simps [of 9] digit_char_def)

lemma demo_apiData2: "apiData_of demo_session demo_transport2 = [sample 1 120 43, sample 2 30 29]"
  by (simp add: apiData_of_def demo_transport2_def response_ok_def)

lemma demo2_find1:
  "find_backendData [sample 1 120 43, sample 2 30 29] demo_lot = Some (sample 1 120 43)"
  by (simp add: find_backendData_def demo_lot_def sample_def parseInt_1)

lemma demo2_find2:
  "find_backendData [sample 1 120 43, sample 2 30 29] demo_lot2 = Some (sample 2 30 29)"
  by (simp add: find_backendData_def demo_lot2_def sample_def parseInt_2)

lemma demo2_update1:
  "update_lot (Some ''2'') (Some ''1'') [sample 1 120 43, sample 2 30 29] rev demo_lot =
     Inr (demo_lot\<lparr>predicted_percent := Num 36, total_slots := 120, slots := replicate 50 0\<rparr>, None)"
proof -
  have m: "mark_occupied 43 (replicate 120 0) = replicate 43 1 @ replicate 77 0"
    by (simp add: mark_occupied_eq)
  show ?thesis
    unfolding update_lot_def demo2_find1
    by (simp add: sample_def Array_fill0_def m percent_43_120 visualSlots_def)
qed

lemma demo2_update2:
  "update_lot (Some ''2'') (Some ''1'') [sample 1 120 43, sample 2 30 29] rev demo_lot2 =
     Inr (demo_lot2\<lparr>predicted_percent := Num 97, total_slots := 30, slots := 0 # replicate 29 1\<rparr>,
          Some demo_alert2)"
proof -
  have m: "mark_occupied 29 (replicate 30 0) = replicate 29 1 @ [0]"
    by (simp add: mark_occupied_eq)
  have n: "name demo_lot2 = ''Park B''" "lot_id demo_lot2 = ''2''" by (simp_all add: demo_lot2_def)
  show ?thesis
    unfolding update_lot_def demo2_find2
    by (simp add: sample_def Array_fill0_def m percent_29_30 visualSlots_def high_demand_def
        digits_97 demo_alert2_def n)
qed

lemma demo2_update_lots:
  "update_lots (Some ''2'') (Some ''1'') [sample 1 120 43, sample 2 30 29] demo_shuffle
     [demo_lot, demo_lot2] =
   Inr [(demo_lot\<lparr>predicted_percent := Num 36, total_slots := 120, slots := replicate 50 0\<rparr>, None),
        (demo_lot2\<lparr>predicted_percent := Num 97, total_slots := 30, slots := 0 # replicate 29 1\<rparr>,
         Some demo_alert2)]"
  by (simp add: update_lots_def demo_shuffle_def demo2_update1 demo2_update2)

lemma demo2_refresh:
  "updatePrediction (Some ''2'') demo_transport2 demo_shuffle demo_session
     (demo_session\<lparr>selectedLotId := Some ''2''\<rparr>) = Inr (demo_switched, [demo_alert2])"
proof -
  have sel: "selectedLotId demo_session = Some ''1''"
    and lots: "parkingLots (demo_session\<lparr>selectedLotId := Some ''2''\<rparr>) = [demo_lot, demo_lot2]"
    by (simp_all add: demo_session_def)
  show ?thesis
    unfolding updatePrediction_def demo_apiData2 demo_arrivalDate sel lots Let_def demo2_update_lots
    by (simp add: alerts_of_def List.map_filter_def demo_switched_def demo_session_def)
qed

lemma seeded_ids_distinct:
  assumes "selectDestination_settled sh dest s0 = Inr s1" "refreshes evs s1 = Inr s"
  shows "distinct (map lot_id (parkingLots s))"
proof -
  from mockFetchParkingLots_returns [of sh "dest_lat dest" "dest_lng dest"] obtain lots a b
    where m: "mockFetchParkingLots sh (dest_lat dest) (dest_lng dest) = Inr lots"
      and ms: "mset lots = {#a, b#}" and ids: "lot_id a = ''1''" "lot_id b = ''2''"
    by blast
  from selectDestination_settled_eq [OF m, of s0] assms(1) have "parkingLots s1 = lots" by auto
  moreover have "mset (map lot_id lots) = mset [''1'', ''2'']"
    using ms ids by simp
  then have "distinct (map lot_id lots) = distinct [''1'', ''2'']"
    by (rule mset_eq_imp_distinct_iff)
  then have "distinct (map lot_id lots)" by simp
  ultimately have "distinct (map lot_id (parkingLots s1))" by simp
  with lot_identity_id [OF refreshes_identity [OF assms(2)]] show ?thesis by simp
qed

section \<open>Seeding returns\<close>

lemma seed_lot_returns:
  assumes "0 \<le> seed_total_slots l" "seed_total_slots l < 2 ^ 32"
  shows "\<exists>r. seed_lot lat' lng' sh l = Inr r"
  using assms by (simp add: seed_lot_def Array_fill0_def Let_def)

lemma seeded_slots:
  assumes "\<And>i. rearranges (shs i)"
  shows "\<exists>lots a b. mockFetchParkingLots shs lat' lng' = Inr lots \<and> mset lots = {#a, b#}
           \<and> name a = ''Park A'' \<and> total_slots a = 120
           \<and> length (slots a) = 50 \<and> set (slots a) \<subseteq> {0, 1} \<and> count_list (slots a) 1 \<le> 43
           \<and> name b = ''Park B'' \<and> total_slots b = 30
           \<and> length (slots b) = 30 \<and> set (slots b) \<subseteq> {0, 1} \<and> count_list (slots b) 1 = 13"
proof -
  have "\<exists>a b. array_map (\<lambda>i. seed_lot lat' lng' (shs i)) 0 (seed_lots lat' lng') = Inr [a, b]
          \<and> name a = ''Park A'' \<and> total_slots a = 120
          \<and> slots a = visualSlots (shs 0 (mark_occupied 43 (replicate 120 0)))
          \<and> name b = ''Park B'' \<and> total_slots b = 30
          \<and> slots b = visualSlots (shs 1 (mark_occupied 13 (replicate 30 0)))"
    by (simp add: seed_lots_def seed_lot_def Array_fill0_def Let_def)
  then obtain a b
    where ab: "array_map (\<lambda>i. seed_lot lat' lng' (shs i)) 0 (seed_lots lat' lng') = Inr [a, b]"
      and na: "name a = ''Park A''" "total_slots a = 120"
      and sa: "slots a = visualSlots (shs 0 (mark_occupied 43 (replicate 120 0)))"
      and nb: "name b = ''Park B''" "total_slots b = 30"
      and sb: "slots b = visualSlots (shs 1 (mark_occupied 13 (replicate 30 0)))"
    by (elim exE conjE)
  note A = synthesized_slots [OF assms [of 0], of 43 120, folded sa]
  note B = synthesized_slots [OF assms [of 1], of 13 30, folded sb]
  have a1: "length (slots a) = 50" using A(1) by simp
  have a2: "set (slots a) \<subseteq> {0, 1}" using A(2) by simp
  have a3: "count_list (slots a) 1 \<le> 43" using A(4) by simp
  have b1: "length (slots b) = 30" using B(1) by simp
  have b2: "set (slots b) \<subseteq> {0, 1}" using B(2) by simp
  have b3: "count_list (slots b) 1 = 13" using B(3) by simp
  have "mockFetchParkingLots shs lat' lng' =
          Inr (sort_by (\<lambda>a b. js_sub (distance_m a) (distance_m b)) [a, b])"
    by (simp add: mockFetchParkingLots_def ab)
  moreover have "mset (sort_by (\<lambda>a b. js_sub (distance_m a) (distance_m b)) [a, b]) = {#a, b#}"
    by (simp add: sort_by_mset)
  ultimately show ?thesis using na nb a1 a2 a3 b1 b2 b3 by blast
qed

lemma seed_A_rev:
  "seed_lot 0 0 rev
     \<lparr>seed_id = ''1'', seed_name = ''Park A'', seed_lat = 15 / 10000, seed_lng = - (1 / 1000),
      seed_type = surface, seed_total_slots = 120, baseOcc = 43\<rparr> =
   Inr \<lparr>lot_id = ''1'', name = ''Park A'', lat = 15 / 10000, lng = - (1 / 1000),
        distance_m = getDistanceMeters 0 0 (15 / 10000) (- (1 / 1000)),
        predicted_percent = Num 36, total_slots = 120, slots = replicate 50 0,
        lot_type = surface\<rparr>"
proof -
  have m: "mark_occupied 43 (replicate 120 0) = replicate 43 1 @ replicate 77 0"
    by (simp add: mark_occupied_eq)
  show ?thesis
    by (simp add: seed_lot_def Array_fill0_def Let_def m visualSlots_def percent_43_120)
qed

section \<open>The claims\<close>

text \<open>
  C1 (as the code has it). Take the selection-relevant lot of a refresh: the lot just
  selected, or, when the arrival time changes, the lot selected at that moment; and let a
  sample match it. The update of that lot sets a warning that names the lot and the
  percentage stored for it exactly when that percentage exceeds 90: with a capacity above
  zero, exactly when occupied / total_slots is at least 0.905. So a ratio of at most 0.90
  sets none. A lot that is neither selection-relevant nor the lot whose selection the click
  replaces sets none, whatever its sample. When the lot whose selection is replaced does
  not come above 90 percent (there is no such lot when the arrival time changes, nor when
  the lot clicked was selected already or none was: \<open>replaced_silent_cases\<close>), the
  notifications of the refresh are
  that one warning, which is then the one shown, or none, and the one shown stays; and they
  are none when no sample matches the selection-relevant lot. What the refresh does for a
  replaced lot above 90 percent is not part of this statement. The identifiers of the lots
  are distinct, as they are in every list the program builds (\<open>seeded_ids_distinct\<close>).
  Here \<open>rs\<close> is what the update computed, lot by lot: the new lot and the notification
  set for it.
\<close>

theorem alert_threshold:
  assumes "updatePrediction forceId tr sh render s = Inr (s', alerts)"
    and "update_lots forceId (selectedLotId render) (apiData_of render tr) sh (parkingLots s) = Inr rs"
    and "distinct (map lot_id (parkingLots s))"
  shows "alerts = alerts_of rs
       \<and> (\<forall>j<length (parkingLots s).
            selection_target forceId (selectedLotId render) \<noteq> Some (lot_id (parkingLots s ! j))
            \<and> \<not> replaced_selection forceId (selectedLotId render) (parkingLots s ! j)
            \<longrightarrow> snd (rs ! j) = None)
       \<and> (i < length (parkingLots s)
          \<and> selection_target forceId (selectedLotId render) = Some (lot_id (parkingLots s ! i))
          \<and> find_backendData (apiData_of render tr) (parkingLots s ! i) = Some d \<longrightarrow>
            (let percent = predicted_percent (parkingLots s' ! i);
                 warn = \<lparr>msg = ''High demand at '' @ name (parkingLots s ! i) @ '' ('' @
                                Number_toString percent @ ''%).'',
                         ntype = warning\<rparr>
             in percent = percent_of (total_occupied d) (sample_total_slots d)
              \<and> snd (rs ! i) = (if js_gt percent 90 then Some warn else None)
              \<and> (js_gt percent 90 \<longleftrightarrow>
                   (if sample_total_slots d = 0 then 0 < total_occupied d
                    else 181 * sample_total_slots d \<le> 200 * total_occupied d))
              \<and> (0 < sample_total_slots d \<and> 10 * total_occupied d \<le> 9 * sample_total_slots d
                   \<longrightarrow> snd (rs ! i) = None)
              \<and> (replaced_silent forceId (selectedLotId render) (apiData_of render tr) (parkingLots s)
                   \<longrightarrow> alerts = (if js_gt percent 90 then [warn] else [])
                     \<and> notification s' = (if js_gt percent 90 then Some warn else notification s))))
       \<and> ((\<forall>j<length (parkingLots s).
             selection_target forceId (selectedLotId render) = Some (lot_id (parkingLots s ! j))
             \<longrightarrow> find_backendData (apiData_of render tr) (parkingLots s ! j) = None)
           \<and> replaced_silent forceId (selectedLotId render) (apiData_of render tr) (parkingLots s)
           \<longrightarrow> alerts = [] \<and> notification s' = notification s)"
proof -
  define sel where "sel = selectedLotId render"
  define api where "api = apiData_of render tr"
  define prev where "prev = parkingLots s"
  note R = assms(2) [folded sel_def api_def prev_def]
  note D = assms(3) [folded prev_def]
  from assms(1) obtain rs'
    where rs': "update_lots forceId (selectedLotId render) (apiData_of render tr) sh (parkingLots s) = Inr rs'"
      and lots0: "parkingLots s' = map fst rs'"
      and al0: "alerts = alerts_of rs'"
      and nt: "notification s' = (if alerts = [] then notification s else Some (last alerts))"
    by (rule updatePrediction_Inr)
  from rs' assms(2) have "rs' = rs" by simp
  with lots0 al0 have lots: "parkingLots s' = map fst rs" and al: "alerts = alerts_of rs" by simp_all
  have len: "length rs = length prev" using R by (rule update_lots_length)
  have u: "update_lot forceId sel api (sh j) (prev ! j) = Inr (fst (rs ! j), snd (rs ! j))"
    if "j < length prev" for j
    using update_lots_nth [OF R that] by simp
  have other: "snd (rs ! j) = None"
    if "j < length prev" "selection_target forceId sel \<noteq> Some (lot_id (prev ! j))"
      "\<not> replaced_selection forceId sel (prev ! j)" for j
  proof -
    from that(2,3) have "\<not> relevant forceId sel (prev ! j)" by (simp add: relevant_iff)
    then show ?thesis using u [OF that(1)] by (rule update_lot_irrelevant)
  qed
  have silent: "snd (rs ! j) = None"
    if "j < length prev" "replaced_selection forceId sel (prev ! j)"
      "replaced_silent forceId sel api prev" for j
  proof -
    from that(1) have "prev ! j \<in> set prev" by simp
    with that(2,3) have "case find_backendData api (prev ! j) of
           None \<Rightarrow> True
         | Some d \<Rightarrow> \<not> js_gt (percent_of (total_occupied d) (sample_total_slots d)) 90"
      by (simp add: replaced_silent_def)
    with u [OF that(1)] show ?thesis by (rule update_lot_silent)
  qed
  have A: "\<forall>j<length prev.
            selection_target forceId sel \<noteq> Some (lot_id (prev ! j))
            \<and> \<not> replaced_selection forceId sel (prev ! j)
            \<longrightarrow> snd (rs ! j) = None"
    using other by blast
  have B: "let percent = predicted_percent (parkingLots s' ! i);
                 warn = \<lparr>msg = ''High demand at '' @ name (prev ! i) @ '' ('' @
                                Number_toString percent @ ''%).'',
                         ntype = warning\<rparr>
             in percent = percent_of (total_occupied d) (sample_total_slots d)
              \<and> snd (rs ! i) = (if js_gt percent 90 then Some warn else None)
              \<and> (js_gt percent 90 \<longleftrightarrow>
                   (if sample_total_slots d = 0 then 0 < total_occupied d
                    else 181 * sample_total_slots d \<le> 200 * total_occupied d))
              \<and> (0 < sample_total_slots d \<and> 10 * total_occupied d \<le> 9 * sample_total_slots d
                   \<longrightarrow> snd (rs ! i) = None)
              \<and> (replaced_silent forceId sel api prev
                   \<longrightarrow> alerts = (if js_gt percent 90 then [warn] else [])
                     \<and> notification s' = (if js_gt percent 90 then Some warn else notification s))"
    if i: "i < length prev" and t: "selection_target forceId sel = Some (lot_id (prev ! i))"
      and m: "find_backendData api (prev ! i) = Some d"
  proof -
    define pc where "pc = percent_of (total_occupied d) (sample_total_slots d)"
    define warn where "warn = \<lparr>msg = ''High demand at '' @ name (prev ! i) @ '' ('' @
                                Number_toString pc @ ''%).'',
                         ntype = warning\<rparr>"
    note ui = u [OF i]
    from update_lot_matched(1) [OF m ui]
    have bound: "0 \<le> sample_total_slots d" "sample_total_slots d < 2 ^ 32" by simp_all
    from update_lot_matched(2) [OF m ui]
    have pp: "predicted_percent (parkingLots s' ! i) = pc"
      using i len lots by (simp add: pc_def)
    from t have rel: "relevant forceId sel (prev ! i)" by (simp add: relevant_iff)
    from update_lot_matched(3) [OF m ui] rel
    have si: "snd (rs ! i) = (if js_gt pc 90 then Some warn else None)"
      by (simp add: pc_def [symmetric] warn_def high_demand_def)
    have thr: "js_gt pc 90 \<longleftrightarrow>
                   (if sample_total_slots d = 0 then 0 < total_occupied d
                    else 181 * sample_total_slots d \<le> 200 * total_occupied d)"
      unfolding pc_def using bound by (rule percent_of_gt_90)
    have low: "snd (rs ! i) = None"
      if "0 < sample_total_slots d \<and> 10 * total_occupied d \<le> 9 * sample_total_slots d"
    proof -
      from that have "\<not> 181 * sample_total_slots d \<le> 200 * total_occupied d" by linarith
      with that thr have "\<not> js_gt pc 90" by simp
      with si show ?thesis by simp
    qed
    have all: "alerts = (if js_gt pc 90 then [warn] else [])
                     \<and> notification s' = (if js_gt pc 90 then Some warn else notification s)"
      if q: "replaced_silent forceId sel api prev"
    proof -
      have "\<forall>j<length rs. j \<noteq> i \<longrightarrow> snd (rs ! j) = None"
      proof (intro allI impI)
        fix j assume j: "j < length rs" "j \<noteq> i"
        then have jl: "j < length prev" by (simp add: len)
        from distinct_ids_nth [OF D i jl j(2)] t
        have nt': "selection_target forceId sel \<noteq> Some (lot_id (prev ! j))" by simp
        show "snd (rs ! j) = None"
        proof (cases "replaced_selection forceId sel (prev ! j)")
          case True
          with jl q show ?thesis by (intro silent)
        next
          case False
          with jl nt' show ?thesis by (intro other)
        qed
      qed
      with alerts_single [of i rs] i len al si
      have a: "alerts = (if js_gt pc 90 then [warn] else [])" by simp
      with nt show ?thesis by simp
    qed
    from pp si thr low all show ?thesis
      unfolding Let_def pp warn_def [symmetric] by (simp add: pc_def)
  qed
  have C: "alerts = [] \<and> notification s' = notification s"
    if un: "\<forall>j<length prev. selection_target forceId sel = Some (lot_id (prev ! j))
             \<longrightarrow> find_backendData api (prev ! j) = None"
      and q: "replaced_silent forceId sel api prev"
  proof -
    have "\<forall>j<length rs. snd (rs ! j) = None"
    proof (intro allI impI)
      fix j assume "j < length rs"
      then have jl: "j < length prev" by (simp add: len)
      show "snd (rs ! j) = None"
      proof (cases "selection_target forceId sel = Some (lot_id (prev ! j))")
        case True
        with un jl have "find_backendData api (prev ! j) = None" by simp
        then have "case find_backendData api (prev ! j) of
             None \<Rightarrow> True
           | Some d \<Rightarrow> \<not> js_gt (percent_of (total_occupied d) (sample_total_slots d)) 90"
          by simp
        with u [OF jl] show ?thesis by (rule update_lot_silent)
      next
        case nt': False
        show ?thesis
        proof (cases "replaced_selection forceId sel (prev ! j)")
          case True
          with jl q show ?thesis by (intro silent)
        next
          case False
          with jl nt' show ?thesis by (intro other)
        qed
      qed
    qed
    then have "alerts_of rs = []" by (rule alerts_of_none)
    with al nt show ?thesis by simp
  qed
  from al A B C show ?thesis
    unfolding sel_def api_def prev_def by (intro conjI impI) blast+
qed

theorem alert_threshold_witness:
  "handleLotSelect demo_transport2 demo_shuffle ''2'' demo_session = Inr (demo_switched, [demo_alert2])
   \<and> selectedLotId demo_session = Some ''1''
   \<and> distinct (map lot_id (parkingLots demo_session))
   \<and> selection_target (Some ''2'') (selectedLotId demo_session)
       = Some (lot_id (parkingLots demo_session ! 1))
   \<and> find_backendData (apiData_of demo_session demo_transport2) (parkingLots demo_session ! 1)
       = Some (sample 2 30 29)
   \<and> replaced_selection (Some ''2'') (selectedLotId demo_session) (parkingLots demo_session ! 0)
   \<and> replaced_silent (Some ''2'') (selectedLotId demo_session)
         (apiData_of demo_session demo_transport2) (parkingLots demo_session)
   \<and> (181::int) * 30 \<le> 200 * 29
   \<and> predicted_percent (parkingLots demo_switched ! 1) = Num 97
   \<and> notification demo_switched = Some \<lparr>msg = ''High demand at Park B (97%).'', ntype = warning\<rparr>"
proof -
  define s where "s = demo_session\<lparr>selectedLotId := Some ''2''\<rparr>"
  have sel: "selectedLotId demo_session = Some ''1''"
    and lots: "parkingLots s = [demo_lot, demo_lot2]"
    and lots': "parkingLots demo_session = [demo_lot, demo_lot2]"
    by (simp_all add: demo_session_def s_def)
  have U: "updatePrediction (Some ''2'') demo_transport2 demo_shuffle demo_session s
             = Inr (demo_switched, [demo_alert2])"
    unfolding s_def by (rule demo2_refresh)
  have R: "update_lots (Some ''2'') (selectedLotId demo_session)
             (apiData_of demo_session demo_transport2) demo_shuffle (parkingLots s) =
           Inr [(demo_lot\<lparr>predicted_percent := Num 36, total_slots := 120, slots := replicate 50 0\<rparr>, None),
                (demo_lot2\<lparr>predicted_percent := Num 97, total_slots := 30, slots := 0 # replicate 29 1\<rparr>,
                 Some demo_alert2)]"
    unfolding sel lots demo_apiData2 by (rule demo2_update_lots)
  have D: "distinct (map lot_id (parkingLots s))"
    by (simp add: lots demo_lot_def demo_lot2_def)
  have i: "(1::nat) < length (parkingLots s)" by (simp add: lots)
  have t: "selection_target (Some ''2'') (selectedLotId demo_session) = Some (lot_id (parkingLots s ! 1))"
    by (simp add: selection_target_def lots demo_lot2_def)
  have m: "find_backendData (apiData_of demo_session demo_transport2) (parkingLots s ! 1)
             = Some (sample 2 30 29)"
    by (simp add: lots demo_apiData2 demo2_find2)
  have r: "replaced_selection (Some ''2'') (selectedLotId demo_session) (parkingLots s ! 0)"
    by (simp add: replaced_selection_def lots sel demo_lot_def)
  have q: "replaced_silent (Some ''2'') (selectedLotId demo_session)
         (apiData_of demo_session demo_transport2) (parkingLots s)"
    by (simp add: replaced_silent_def lots demo_apiData2 demo2_find1 demo2_find2 sample_sel
        percent_43_120 replaced_selection_def demo_lot2_def)
  from alert_threshold [OF U R D, of 1 "sample 2 30 29"] i t m q
  have "notification demo_switched =
          (if js_gt (predicted_percent (parkingLots demo_switched ! 1)) 90
           then Some \<lparr>msg = ''High demand at '' @ name (parkingLots s ! 1) @ '' ('' @
                         Number_toString (predicted_percent (parkingLots demo_switched ! 1)) @ ''%).'',
                       ntype = warning\<rparr>
           else notification s)"
    and "predicted_percent (parkingLots demo_switched ! 1) = percent_of 29 30"
    by (simp_all add: Let_def sample_def)
  then have "notification demo_switched = Some \<lparr>msg = ''High demand at Park B (97%).'', ntype = warning\<rparr>"
    and "predicted_percent (parkingLots demo_switched ! 1) = Num 97"
    by (simp_all add: percent_29_30 lots demo_lot2_def digits_97)
  moreover have "handleLotSelect demo_transport2 demo_shuffle ''2'' demo_session
                   = Inr (demo_switched, [demo_alert2])"
    using U by (simp add: handleLotSelect_def s_def)
  moreover have "parkingLots s = parkingLots demo_session" by (simp add: lots lots')
  ultimately show ?thesis using sel D t m r q by simp
qed

text \<open>
  The claim C1 as stated fails: for the selected lot a sample of 19 occupied out of 21 has
  a ratio above 0.90, the percentage stored is 90, and no notification is set.
\<close>

theorem alert_threshold_counterexample:
  "updatePrediction (Some ''1'') (Response 200 ''OK'' (Json [sample 1 21 19])) demo_shuffle
     demo_session demo_session =
     Inr (demo_session\<lparr>parkingLots :=
                         [demo_lot\<lparr>predicted_percent := Num 90, total_slots := 21,
                                   slots := replicate 2 0 @ replicate 19 1\<rparr>, demo_lot2],
                       debugData := DebugApi [sample 1 21 19],
                       requests := [''2026-03-15 14:30'']\<rparr>, [])
   \<and> (9 :: rat) / 10 < 19 / 21
   \<and> selectedLotId demo_session = Some (lot_id demo_lot)
   \<and> notification demo_session = None"
proof -
  have api: "apiData_of demo_session (Response 200 ''OK'' (Json [sample 1 21 19])) = [sample 1 21 19]"
    by (simp add: apiData_of_def response_ok_def)
  have f1: "find_backendData [sample 1 21 19] demo_lot = Some (sample 1 21 19)"
    by (simp add: find_backendData_def demo_lot_def sample_def parseInt_1)
  have f2: "find_backendData [sample 1 21 19] demo_lot2 = None"
    by (simp add: find_backendData_def demo_lot2_def sample_def parseInt_2)
  have m: "mark_occupied 19 (replicate 21 0) = replicate 19 1 @ replicate 2 0"
    by (simp add: mark_occupied_eq)
  have u1: "update_lot (Some ''1'') (Some ''1'') [sample 1 21 19] rev demo_lot =
     Inr (demo_lot\<lparr>predicted_percent := Num 90, total_slots := 21,
                   slots := replicate 2 0 @ replicate 19 1\<rparr>, None)"
    unfolding update_lot_def f1
    by (simp add: sample_def Array_fill0_def m percent_19_21 visualSlots_def)
  have u2: "update_lot (Some ''1'') (Some ''1'') [sample 1 21 19] rev demo_lot2 = Inr (demo_lot2, None)"
    by (simp add: update_lot_unmatched f2)
  have sel: "selectedLotId demo_session = Some ''1''"
    and lots: "parkingLots demo_session = [demo_lot, demo_lot2]"
    by (simp_all add: demo_session_def)
  have u: "update_lots (Some ''1'') (Some ''1'') [sample 1 21 19] demo_shuffle [demo_lot, demo_lot2] =
             Inr [(demo_lot\<lparr>predicted_percent := Num 90, total_slots := 21,
                   slots := replicate 2 0 @ replicate 19 1\<rparr>, None), (demo_lot2, None)]"
    by (simp add: update_lots_def demo_shuffle_def u1 u2)
  have "updatePrediction (Some ''1'') (Response 200 ''OK'' (Json [sample 1 21 19])) demo_shuffle
     demo_session demo_session =
     Inr (demo_session\<lparr>parkingLots :=
                         [demo_lot\<lparr>predicted_percent := Num 90, total_slots := 21,
                                   slots := replicate 2 0 @ replicate 19 1\<rparr>, demo_lot2],
                       debugData := DebugApi [sample 1 21 19],
                       requests := [''2026-03-15 14:30'']\<rparr>, [])"
    unfolding updatePrediction_def api demo_arrivalDate sel lots Let_def u
    by (simp add: alerts_of_def List.map_filter_def demo_session_def)
  then show ?thesis by (simp add: demo_session_def demo_lot_def)
qed

text \<open>
  C2. Whenever the transport to the prediction provider fails (no response, a status
  outside 200..299, or a body that is not JSON), \<open>fetchRealPrediction\<close> returns the two
  fallback samples: identifier 1 with 120 slots, 43 occupied and 77 empty, and identifier 2
  with 30 slots, 13 occupied and 17 empty, each stamped with the arrival date asked for.
  Two failing calls for the same date return the same list, and the numbers do not depend
  on the date.
\<close>

theorem fallback_on_failure:
  assumes "transport_fails tr" and "transport_fails tr'"
  shows "fetchRealPrediction arrivalDate tr =
           [\<lparr>sample_id = 1, datetime = arrivalDate, sample_total_slots = 120,
             total_occupied = 43, total_empty = 77\<rparr>,
            \<lparr>sample_id = 2, datetime = arrivalDate, sample_total_slots = 30,
             total_occupied = 13, total_empty = 17\<rparr>]
         \<and> fetchRealPrediction arrivalDate tr' = fetchRealPrediction arrivalDate tr
         \<and> map (\<lambda>d. (sample_id d, sample_total_slots d, total_occupied d, total_empty d))
               (fetchRealPrediction arrivalDate' tr') = [(1, 120, 43, 77), (2, 30, 13, 17)]"
proof -
  have "fetchRealPrediction date t = fallback date" if "transport_fails t" for date t
    using that by (cases t) (auto split: payload.splits)
  with assms show ?thesis by (simp add: fallback_def)
qed

theorem fallback_on_failure_witness:
  "transport_fails (Response 503 ''Service Unavailable'' (Json []))
   \<and> transport_fails (Response 200 ''OK'' InvalidJson)
   \<and> fetchRealPrediction ''2026-03-15 14:30'' (Response 503 ''Service Unavailable'' (Json [])) =
       [\<lparr>sample_id = 1, datetime = ''2026-03-15 14:30'', sample_total_slots = 120,
         total_occupied = 43, total_empty = 77\<rparr>,
        \<lparr>sample_id = 2, datetime = ''2026-03-15 14:30'', sample_total_slots = 30,
         total_occupied = 13, total_empty = 17\<rparr>]
   \<and> fetchRealPrediction ''2026-03-15 14:30'' (Response 200 ''OK'' InvalidJson) =
       fetchRealPrediction ''2026-03-15 14:30'' (Response 503 ''Service Unavailable'' (Json []))"
  using fallback_on_failure [of "Response 503 ''Service Unavailable'' (Json [])"
      "Response 200 ''OK'' InvalidJson" "''2026-03-15 14:30''"]
  by (simp add: response_ok_def)

text \<open>
  C3 asks that the distance be symmetric and zero between coinciding points. The second
  holds (\<open>distance_zero\<close>). The first does not: the haversine term uses the cosine of
  the first latitude twice, where the formula has the cosines of both latitudes, so
  from (0, 0) to (60, 90) the result is the rounding of 6371000 * 2 \<pi> / 3, about 13343 km,
  and from (60, 90) to (0, 0) it is below the rounding of 6371000 * \<pi> / 2, about 10008 km.
\<close>

theorem distance_not_symmetric:
  "getDistanceMeters 0 0 60 90 \<noteq> getDistanceMeters 60 90 0 0
   \<and> getDistanceMeters 0 0 60 90 = Num (of_int \<lfloor>6371000 * (2 * (pi / 3)) + 1 / 2\<rfloor>)
   \<and> getDistanceMeters 0 0 0 0 = Num 0"
proof -
  from distance_backward obtain c
    where b: "getDistanceMeters 60 90 0 0 = Num (of_int \<lfloor>6371000 * (2 * c) + 1 / 2\<rfloor>)"
      and c: "c < pi / 4" by blast
  define x where "x = 6371000 * (2 * c) + 1 / 2"
  define y where "y = 6371000 * (2 * (pi / 3)) + 1 / 2"
  have "x + 1 \<le> y" using c pi_ge_two by (simp add: x_def y_def)
  moreover have "of_int \<lfloor>x\<rfloor> \<le> x" by (rule of_int_floor_le)
  ultimately have "of_int \<lfloor>x\<rfloor> + 1 \<le> y" by linarith
  then have "of_int (\<lfloor>x\<rfloor> + 1) \<le> y" by simp
  then have "\<lfloor>x\<rfloor> + 1 \<le> \<lfloor>y\<rfloor>" by (simp only: le_floor_iff)
  then have "\<lfloor>y\<rfloor> \<noteq> \<lfloor>x\<rfloor>" by simp
  then have "\<lfloor>6371000 * (2 * (pi / 3)) + 1 / 2\<rfloor> \<noteq> \<lfloor>6371000 * (2 * c) + 1 / 2\<rfloor>"
    unfolding x_def y_def .
  then have "getDistanceMeters 0 0 60 90 \<noteq> getDistanceMeters 60 90 0 0"
    unfolding b distance_forward by (auto simp only: jsnum.inject of_int_eq_iff)
  then show ?thesis
    using distance_forward distance_zero [of 0 0] by (intro conjI)
qed

text \<open>
  C4. For every capacity of at least 1 and every occupied count from 0 to the capacity, the
  slot sequence built for a lot has length min(capacity, 50) and holds only 0 and 1; when
  the capacity is at most 50 exactly the occupied count of its entries are 1, and when it
  is larger at most min(occupied, 50) are; an occupied count of 0 gives only 0 and one
  equal to the capacity gives only 1. This holds where the update builds the sequence
  from a sample and where the seeding builds it, and at both places the sequence is built
  whenever the capacity is an array length, that is below \<open>2^32\<close>. The seeding of the
  program always returns its two lots: Park A with 50 entries of which at most 43 are 1,
  and Park B with 30 entries of which exactly 13 are 1.
\<close>

theorem slot_sequence:
  assumes "rearranges sh" and "\<And>i. rearranges (shs i)"
  shows "(find_backendData apiData lot = Some d \<and> 1 \<le> sample_total_slots d
            \<and> 0 \<le> total_occupied d \<and> total_occupied d \<le> sample_total_slots d \<longrightarrow>
           (sample_total_slots d < 2 ^ 32 \<longrightarrow> (\<exists>r. update_lot forceId sel apiData sh lot = Inr r))
           \<and> (update_lot forceId sel apiData sh lot = Inr (lot', a) \<longrightarrow>
                length (slots lot') = min (nat (sample_total_slots d)) 50
              \<and> set (slots lot') \<subseteq> {0, 1}
              \<and> (sample_total_slots d \<le> 50 \<longrightarrow> count_list (slots lot') 1 = nat (total_occupied d))
              \<and> (50 < sample_total_slots d \<longrightarrow> count_list (slots lot') 1 \<le> min (nat (total_occupied d)) 50)
              \<and> (total_occupied d = 0 \<longrightarrow> set (slots lot') \<subseteq> {0})
              \<and> (total_occupied d = sample_total_slots d \<longrightarrow> set (slots lot') \<subseteq> {1})))
       \<and> (1 \<le> seed_total_slots l \<and> 0 \<le> baseOcc l \<and> baseOcc l \<le> seed_total_slots l \<longrightarrow>
           (seed_total_slots l < 2 ^ 32 \<longrightarrow> (\<exists>r. seed_lot lat' lng' sh l = Inr r))
           \<and> (seed_lot lat' lng' sh l = Inr lot'' \<longrightarrow>
                length (slots lot'') = min (nat (seed_total_slots l)) 50
              \<and> set (slots lot'') \<subseteq> {0, 1}
              \<and> (seed_total_slots l \<le> 50 \<longrightarrow> count_list (slots lot'') 1 = nat (baseOcc l))
              \<and> (50 < seed_total_slots l \<longrightarrow> count_list (slots lot'') 1 \<le> min (nat (baseOcc l)) 50)
              \<and> (baseOcc l = 0 \<longrightarrow> set (slots lot'') \<subseteq> {0})
              \<and> (baseOcc l = seed_total_slots l \<longrightarrow> set (slots lot'') \<subseteq> {1})))
       \<and> (\<exists>lots a b. mockFetchParkingLots shs lat' lng' = Inr lots \<and> mset lots = {#a, b#}
            \<and> name a = ''Park A'' \<and> total_slots a = 120
            \<and> length (slots a) = 50 \<and> set (slots a) \<subseteq> {0, 1} \<and> count_list (slots a) 1 \<le> 43
            \<and> name b = ''Park B'' \<and> total_slots b = 30
            \<and> length (slots b) = 30 \<and> set (slots b) \<subseteq> {0, 1} \<and> count_list (slots b) 1 = 13)"
proof (intro conjI impI)
  assume h: "find_backendData apiData lot = Some d \<and> 1 \<le> sample_total_slots d
            \<and> 0 \<le> total_occupied d \<and> total_occupied d \<le> sample_total_slots d"
  {
    assume "sample_total_slots d < 2 ^ 32"
    with h show "\<exists>r. update_lot forceId sel apiData sh lot = Inr r"
      by (intro update_lot_returns [of apiData lot d]) auto
  }
  assume u: "update_lot forceId sel apiData sh lot = Inr (lot', a)"
  from h have m: "find_backendData apiData lot = Some d" by simp
  from update_lot_matched(2) [OF m u]
  have s: "slots lot' = visualSlots (sh (mark_occupied (total_occupied d)
                          (replicate (nat (sample_total_slots d)) 0)))" by simp
  from h have o: "0 \<le> total_occupied d" "total_occupied d \<le> int (nat (sample_total_slots d))"
    by simp_all
  note S = synthesized_slots [OF assms(1) o, folded s]
  show "length (slots lot') = min (nat (sample_total_slots d)) 50" by (rule S(1))
  show "set (slots lot') \<subseteq> {0, 1}" by (rule S(2))
  show "count_list (slots lot') 1 = nat (total_occupied d)" if "sample_total_slots d \<le> 50"
    using that by (intro S(3)) simp
  show "count_list (slots lot') 1 \<le> min (nat (total_occupied d)) 50" if "50 < sample_total_slots d"
    using that by (intro S(4)) simp
  show "set (slots lot') \<subseteq> {0}" if "total_occupied d = 0" using that by (rule S(5))
  show "set (slots lot') \<subseteq> {1}" if "total_occupied d = sample_total_slots d"
    using that h by (intro S(6)) simp
next
  assume h: "1 \<le> seed_total_slots l \<and> 0 \<le> baseOcc l \<and> baseOcc l \<le> seed_total_slots l"
  {
    assume "seed_total_slots l < 2 ^ 32"
    with h show "\<exists>r. seed_lot lat' lng' sh l = Inr r"
      by (intro seed_lot_returns) auto
  }
  assume "seed_lot lat' lng' sh l = Inr lot''"
  then have s: "slots lot'' = visualSlots (sh (mark_occupied (baseOcc l)
                          (replicate (nat (seed_total_slots l)) 0)))"
    by (rule seed_lot_Inr(2))
  from h have o: "0 \<le> baseOcc l" "baseOcc l \<le> int (nat (seed_total_slots l))" by simp_all
  note S = synthesized_slots [OF assms(1) o, folded s]
  show "length (slots lot'') = min (nat (seed_total_slots l)) 50" by (rule S(1))
  show "set (slots lot'') \<subseteq> {0, 1}" by (rule S(2))
  show "count_list (slots lot'') 1 = nat (baseOcc l)" if "seed_total_slots l \<le> 50"
    using that by (intro S(3)) simp
  show "count_list (slots lot'') 1 \<le> min (nat (baseOcc l)) 50" if "50 < seed_total_slots l"
    using that by (intro S(4)) simp
  show "set (slots lot'') \<subseteq> {0}" if "baseOcc l = 0" using that by (rule S(5))
  show "set (slots lot'') \<subseteq> {1}" if "baseOcc l = seed_total_slots l"
    using that h by (intro S(6)) simp
next
  show "\<exists>lots a b. mockFetchParkingLots shs lat' lng' = Inr lots \<and> mset lots = {#a, b#}
            \<and> name a = ''Park A'' \<and> total_slots a = 120
            \<and> length (slots a) = 50 \<and> set (slots a) \<subseteq> {0, 1} \<and> count_list (slots a) 1 \<le> 43
            \<and> name b = ''Park B'' \<and> total_slots b = 30
            \<and> length (slots b) = 30 \<and> set (slots b) \<subseteq> {0, 1} \<and> count_list (slots b) 1 = 13"
    using assms(2) by (rule seeded_slots)
qed

theorem slot_sequence_witness:
  "rearranges rev
   \<and> find_backendData [sample 1 20 19] demo_lot = Some (sample 1 20 19)
   \<and> update_lot (Some ''1'') (Some ''1'') [sample 1 20 19] rev demo_lot =
       Inr (demo_lot\<lparr>predicted_percent := Num 95, total_slots := 20,
                     slots := [0, 1, 1, 1, 1, 1, 1, 1, 1, 1, 1, 1, 1, 1, 1, 1, 1, 1, 1, 1]\<rparr>,
            Some demo_alert)
   \<and> length [0, 1, 1, 1, 1, 1, 1, 1, 1, 1, 1, 1, 1, 1, 1, 1, 1, 1, 1, 1 :: nat] = min (nat 20) 50
   \<and> count_list [0, 1, 1, 1, 1, 1, 1, 1, 1, 1, 1, 1, 1, 1, 1, 1, 1, 1, 1, 1 :: nat] 1 = nat 19
   \<and> seed_lot 0 0 rev
       \<lparr>seed_id = ''1'', seed_name = ''Park A'', seed_lat = 15 / 10000, seed_lng = - (1 / 1000),
        seed_type = surface, seed_total_slots = 120, baseOcc = 43\<rparr> =
     Inr \<lparr>lot_id = ''1'', name = ''Park A'', lat = 15 / 10000, lng = - (1 / 1000),
          distance_m = getDistanceMeters 0 0 (15 / 10000) (- (1 / 1000)),
          predicted_percent = Num 36, total_slots = 120, slots = replicate 50 0,
          lot_type = surface\<rparr>
   \<and> length (replicate 50 (0::nat)) = min (nat 120) 50
   \<and> count_list (replicate 50 (0::nat)) 1 \<le> min (nat 43) 50"
proof -
  have sh: "\<And>i. rearranges (demo_shuffle i)" by (simp add: demo_shuffle_def rearranges_rev)
  note T = slot_sequence [OF rearranges_rev sh, of "[sample 1 20 19]" demo_lot "sample 1 20 19"
      "Some ''1''" "Some ''1''"
      "demo_lot\<lparr>predicted_percent := Num 95, total_slots := 20,
                 slots := [0, 1, 1, 1, 1, 1, 1, 1, 1, 1, 1, 1, 1, 1, 1, 1, 1, 1, 1, 1]\<rparr>"
      "Some demo_alert"
      "\<lparr>seed_id = ''1'', seed_name = ''Park A'', seed_lat = 15 / 10000, seed_lng = - (1 / 1000),
        seed_type = surface, seed_total_slots = 120, baseOcc = 43\<rparr>"
      0 0
      "\<lparr>lot_id = ''1'', name = ''Park A'', lat = 15 / 10000, lng = - (1 / 1000),
          distance_m = getDistanceMeters 0 0 (15 / 10000) (- (1 / 1000)),
          predicted_percent = Num 36, total_slots = 120, slots = replicate 50 0,
          lot_type = surface\<rparr>"]
  from T demo_find1 demo_update1 [of "Some ''1''"] rearranges_rev seed_A_rev
  show ?thesis by (simp add: sample_def)
qed

text \<open>
  C5 (as the code has it). Selecting a destination records it, empties the lot list and
  raises the loading flag at once, clears the lot selection, and when the seeding delay
  has passed shows the seeded lots and lowers the loading flag. Nothing else changes: the
  current notification stays, and no request goes to the prediction provider, so the
  seeded figures stand until a lot is selected or the arrival time changes.
\<close>

theorem select_destination_effects:
  "\<exists>lots. mockFetchParkingLots sh (dest_lat dest) (dest_lng dest) = Inr lots
     \<and> length lots = 2
     \<and> selectDestination dest s =
         s\<lparr>destination := Some dest, query := dest_name dest, suggestions := [],
           isLoading := True, parkingLots := [], selectedLotId := None\<rparr>
     \<and> selectDestination_settled sh dest s =
         Inr (s\<lparr>destination := Some dest, query := dest_name dest, suggestions := [],
                isLoading := False, parkingLots := lots, selectedLotId := None,
                debugData := DebugLots dest 2\<rparr>)
     \<and> notification (selectDestination dest s) = notification s
     \<and> requests (selectDestination dest s) = requests s"
proof -
  from mockFetchParkingLots_returns [of sh "dest_lat dest" "dest_lng dest"] obtain lots a b
    where m: "mockFetchParkingLots sh (dest_lat dest) (dest_lng dest) = Inr lots"
      and ms: "mset lots = {#a, b#}"
    by blast
  from ms have len: "length lots = 2" by (metis mset_eq_length length_Cons list.size(3) mset.simps numeral_2_eq_2)
  from selectDestination_settled_eq [OF m, of s] len m show ?thesis
    by (intro exI [of _ lots]) (simp add: selectDestination_def fetchLots_begin_def)
qed

text \<open>
  The claim C5 as stated fails: a notification shown before the destination is selected
  is still shown afterwards, and the selection issues no prediction request.
\<close>

theorem select_destination_counterexample:
  "\<not> isl (selectDestination_settled demo_shuffle
            \<lparr>dest_name = ''Baku Boulevard'', dest_lat = 40368 / 1000, dest_lng = 49839 / 1000\<rparr>
            demo_refreshed)
   \<and> notification (projr (selectDestination_settled demo_shuffle
            \<lparr>dest_name = ''Baku Boulevard'', dest_lat = 40368 / 1000, dest_lng = 49839 / 1000\<rparr>
            demo_refreshed)) = Some demo_alert
   \<and> requests (projr (selectDestination_settled demo_shuffle
            \<lparr>dest_name = ''Baku Boulevard'', dest_lat = 40368 / 1000, dest_lng = 49839 / 1000\<rparr>
            demo_refreshed)) = [''2026-03-15 14:30'']"
proof -
  define D where "D = \<lparr>dest_name = ''Baku Boulevard'', dest_lat = 40368 / 1000, dest_lng = 49839 / 1000\<rparr>"
  from mockFetchParkingLots_returns [of demo_shuffle "dest_lat D" "dest_lng D"] obtain lots
    where m: "mockFetchParkingLots demo_shuffle (dest_lat D) (dest_lng D) = Inr lots"
    by blast
  have n: "notification demo_refreshed = Some demo_alert"
    by (simp add: demo_refreshed_def)
  show ?thesis
    unfolding D_def [symmetric] selectDestination_settled_eq [OF m]
    by (simp add: n demo_refreshed_def)
qed

text \<open>
  C6 (as the code has it). The percentage stored when a sample with 0 \<le> occupied \<le>
  total_slots is applied is an integer nearest to 100 * occupied / total_slots. It is
  that value rounded half up whenever the value is not exactly half-way between two
  integers; a sample of 43 occupied out of 120 yields 36. The seeded lots carry 36 and 43.
\<close>

theorem percent_is_nearest:
  assumes "updatePrediction forceId tr sh render s = Inr (s', alerts)"
    and "i < length (parkingLots s)"
    and "find_backendData (apiData_of render tr) (parkingLots s ! i) = Some d"
    and "0 \<le> total_occupied d" "total_occupied d \<le> sample_total_slots d" "0 < sample_total_slots d"
  shows "\<exists>p. predicted_percent (parkingLots s' ! i) = Num (of_int p)
           \<and> \<bar>of_int p - 100 * of_int (total_occupied d) / of_int (sample_total_slots d)\<bar> \<le> (1 / 2 :: rat)
           \<and> (of_int \<lfloor>(100 * of_int (total_occupied d) / of_int (sample_total_slots d) :: rat) + 1 / 2\<rfloor>
                 \<noteq> (100 * of_int (total_occupied d) / of_int (sample_total_slots d) :: rat) + 1 / 2
               \<longrightarrow> p = \<lfloor>(100 * of_int (total_occupied d) / of_int (sample_total_slots d) :: rat) + 1 / 2\<rfloor>)
           \<and> (sample_total_slots d = 120 \<and> total_occupied d = 43 \<longrightarrow> p = 36)
           \<and> (\<exists>lots. mockFetchParkingLots sh0 lat' lng' = Inr lots
                 \<and> mset (map predicted_percent lots) = {#Num 36, Num 43#})"
proof -
  from assms(1) obtain rs
    where rs: "update_lots forceId (selectedLotId render) (apiData_of render tr) sh (parkingLots s) = Inr rs"
      and lots: "parkingLots s' = map fst rs"
    by (rule updatePrediction_Inr)
  have len: "length rs = length (parkingLots s)" using rs by (rule update_lots_length)
  from update_lots_nth [OF rs assms(2)]
  have u: "update_lot forceId (selectedLotId render) (apiData_of render tr) (sh i) (parkingLots s ! i)
          = Inr (fst (rs ! i), snd (rs ! i))" by simp
  from update_lot_matched(1) [OF assms(3) u] have bound: "sample_total_slots d < 2 ^ 32" by simp
  from update_lot_matched(2) [OF assms(3) u]
  have pp: "predicted_percent (parkingLots s' ! i) = percent_of (total_occupied d) (sample_total_slots d)"
    using assms(2) len lots by simp
  from percent_of_nearest [OF assms(4-6) bound] obtain p
    where p: "percent_of (total_occupied d) (sample_total_slots d) = Num (of_int p)"
      and near: "\<bar>of_int p - of_int (100 * total_occupied d) / of_int (sample_total_slots d)\<bar> \<le> (1 / 2 :: rat)"
      and exact: "(200 * total_occupied d + sample_total_slots d) mod (2 * sample_total_slots d) \<noteq> 0 \<longrightarrow>
                  p = (200 * total_occupied d + sample_total_slots d) div (2 * sample_total_slots d)"
    by (elim exE conjE)
  note H = half_up_exact [OF assms(6), of "total_occupied d"]
  have A: "predicted_percent (parkingLots s' ! i) = Num (of_int p)" using pp p by simp
  have B: "\<bar>of_int p - 100 * of_int (total_occupied d) / of_int (sample_total_slots d)\<bar> \<le> (1 / 2 :: rat)"
    using near by simp
  have C: "p = \<lfloor>(100 * of_int (total_occupied d) / of_int (sample_total_slots d) :: rat) + 1 / 2\<rfloor>"
    if "of_int \<lfloor>(100 * of_int (total_occupied d) / of_int (sample_total_slots d) :: rat) + 1 / 2\<rfloor>
                 \<noteq> (100 * of_int (total_occupied d) / of_int (sample_total_slots d) :: rat) + 1 / 2"
    using H(2) [OF that] exact H(1) by simp
  have D: "p = 36" if "sample_total_slots d = 120 \<and> total_occupied d = 43"
    using that p percent_43_120 by simp
  have E: "\<exists>lots. mockFetchParkingLots sh0 lat' lng' = Inr lots
                 \<and> mset (map predicted_percent lots) = {#Num 36, Num 43#}"
  proof -
    from mockFetchParkingLots_returns [of sh0 lat' lng'] obtain lots a b
      where m: "mockFetchParkingLots sh0 lat' lng' = Inr lots" and ms: "mset lots = {#a, b#}"
        and f: "figures a = (''Park A'', 120, Num 36)" "figures b = (''Park B'', 30, Num 43)"
      by blast
    have "mset (map predicted_percent lots) = image_mset predicted_percent (mset lots)" by simp
    also have "\<dots> = {#predicted_percent a, predicted_percent b#}" by (simp add: ms)
    also have "\<dots> = {#Num 36, Num 43#}" using f by (simp add: figures_def)
    finally show ?thesis using m by blast
  qed
  show ?thesis
  proof (intro exI [of _ p] conjI impI)
    show "predicted_percent (parkingLots s' ! i) = Num (of_int p)" by (rule A)
    show "\<bar>of_int p - 100 * of_int (total_occupied d) / of_int (sample_total_slots d)\<bar> \<le> (1 / 2 :: rat)"
      by (rule B)
    show "p = \<lfloor>(100 * of_int (total_occupied d) / of_int (sample_total_slots d) :: rat) + 1 / 2\<rfloor>"
      if "of_int \<lfloor>(100 * of_int (total_occupied d) / of_int (sample_total_slots d) :: rat) + 1 / 2\<rfloor>
                 \<noteq> (100 * of_int (total_occupied d) / of_int (sample_total_slots d) :: rat) + 1 / 2"
      using that by (rule C)
    show "p = 36" if "sample_total_slots d = 120 \<and> total_occupied d = 43"
      using that by (rule D)
    show "\<exists>lots. mockFetchParkingLots sh0 lat' lng' = Inr lots
                 \<and> mset (map predicted_percent lots) = {#Num 36, Num 43#}" by (rule E)
  qed
qed

theorem percent_is_nearest_witness:
  "updatePrediction (Some ''1'') demo_transport demo_shuffle demo_session demo_session =
     Inr (demo_refreshed, [demo_alert])
   \<and> (0::nat) < length (parkingLots demo_session)
   \<and> find_backendData (apiData_of demo_session demo_transport) (parkingLots demo_session ! 0)
       = Some (sample 1 20 19)
   \<and> (0::int) \<le> 19 \<and> (19::int) \<le> 20
   \<and> predicted_percent (parkingLots demo_refreshed ! 0) = Num 95
   \<and> \<lfloor>(100 * 19 / 20 :: rat) + 1 / 2\<rfloor> = 95"
proof -
  have a: "(0::nat) < length (parkingLots demo_session)"
    and b: "parkingLots demo_session ! 0 = demo_lot"
    by (simp_all add: demo_session_def)
  have c: "find_backendData (apiData_of demo_session demo_transport) (parkingLots demo_session ! 0)
             = Some (sample 1 20 19)"
    by (simp only: b demo_apiData demo_find1)
  have d: "0 \<le> total_occupied (sample 1 20 19)"
    "total_occupied (sample 1 20 19) \<le> sample_total_slots (sample 1 20 19)"
    "0 < sample_total_slots (sample 1 20 19)"
    by (simp_all add: sample_def)
  from percent_is_nearest [OF demo_refresh a c d, of demo_shuffle 0 0]
  have "\<exists>p. predicted_percent (parkingLots demo_refreshed ! 0) = Num (of_int p)"
    by (elim exE conjE) (rule exI)
  moreover have "predicted_percent (parkingLots demo_refreshed ! 0) = Num 95"
    by (simp add: demo_refreshed_def)
  moreover have "\<lfloor>(100 * 19 / 20 :: rat) + 1 / 2\<rfloor> = 95" by (simp add: floor_eq_iff)
  ultimately show ?thesis using a c demo_refresh by simp
qed

text \<open>
  The claim C6 as stated fails: for 23 occupied out of 40 the value 100 * 23 / 40 is 57.5,
  which rounds to 58 (half up or half to even), while the double 23 / 40 lies just below
  0.575 and the stored percentage is 57.
\<close>

theorem percent_half_counterexample:
  "update_lot None None [sample 1 40 23] rev demo_lot =
     Inr (demo_lot\<lparr>predicted_percent := Num 57, total_slots := 40,
                   slots := replicate 17 0 @ replicate 23 1\<rparr>, None)
   \<and> \<lfloor>(100 * 23 / 40 :: rat) + 1 / 2\<rfloor> = 58
   \<and> round_ties_even (100 * 23 / 40) = 58"
proof -
  have f: "find_backendData [sample 1 40 23] demo_lot = Some (sample 1 40 23)"
    by (simp add: find_backendData_def demo_lot_def sample_def parseInt_1)
  have m: "mark_occupied 23 (replicate 40 0) = replicate 23 1 @ replicate 17 0"
    by (simp add: mark_occupied_eq)
  have "update_lot None None [sample 1 40 23] rev demo_lot =
     Inr (demo_lot\<lparr>predicted_percent := Num 57, total_slots := 40,
                   slots := replicate 17 0 @ replicate 23 1\<rparr>, None)"
    unfolding update_lot_def f
    by (simp add: sample_def Array_fill0_def m percent_23_40 visualSlots_def)
  with percent_23_40_exact show ?thesis by simp
qed

text \<open>
  C7. A prediction refresh never reorders the lot list: whatever the previous list and the
  samples, the list after \<open>updatePrediction\<close> holds the same identifiers at the same
  positions, and so does the list after any sequence of refreshing events (lot selections
  and changes of the arrival time).
\<close>

theorem refresh_keeps_order:
  "(updatePrediction forceId tr sh render s = Inr (s', alerts) \<longrightarrow>
      map lot_id (parkingLots s') = map lot_id (parkingLots s))
   \<and> (refreshes evs s = Inr s'' \<longrightarrow>
      map lot_id (parkingLots s'') = map lot_id (parkingLots s))"
  using updatePrediction_identity [of forceId tr sh render s s' alerts]
    refreshes_identity [of evs s s'']
  by (auto dest: lot_identity_id)

theorem refresh_keeps_order_witness:
  "updatePrediction (Some ''1'') demo_transport demo_shuffle demo_session demo_session =
     Inr (demo_refreshed, [demo_alert])
   \<and> refreshes [(LotSelect ''1'', demo_transport, demo_shuffle)] demo_session = Inr demo_refreshed
   \<and> map lot_id (parkingLots demo_session) = [''1'', ''2'']
   \<and> map lot_id (parkingLots demo_refreshed) = [''1'', ''2'']"
  using refresh_keeps_order [of "Some ''1''" demo_transport demo_shuffle demo_session
      demo_session demo_refreshed "[demo_alert]"
      "[(LotSelect ''1'', demo_transport, demo_shuffle)]" demo_refreshed]
    demo_refresh demo_select demo_ids
  by simp

text \<open>
  C8. A lot whose identifier matches no sample of the response is left entirely unchanged
  by the refresh: the lot at its position afterwards is the lot that was there before,
  with every field, \<open>predicted_percent\<close>, \<open>total_slots\<close> and \<open>slots\<close> included.
\<close>

theorem unmatched_lot_unchanged:
  assumes "updatePrediction forceId tr sh render s = Inr (s', alerts)"
    and "i < length (parkingLots s)"
    and "find_backendData (apiData_of render tr) (parkingLots s ! i) = None"
  shows "length (parkingLots s') = length (parkingLots s) \<and> parkingLots s' ! i = parkingLots s ! i"
proof -
  from assms(1) obtain rs
    where rs: "update_lots forceId (selectedLotId render) (apiData_of render tr) sh (parkingLots s) = Inr rs"
      and lots: "parkingLots s' = map fst rs"
    by (rule updatePrediction_Inr)
  have len: "length rs = length (parkingLots s)" using rs by (rule update_lots_length)
  from update_lots_nth [OF rs assms(2)] assms(3)
  have "rs ! i = (parkingLots s ! i, None)" by (simp add: update_lot_unmatched)
  with assms(2) len lots show ?thesis by simp
qed

theorem unmatched_lot_unchanged_witness:
  "updatePrediction (Some ''1'') demo_transport demo_shuffle demo_session demo_session =
     Inr (demo_refreshed, [demo_alert])
   \<and> (1::nat) < length (parkingLots demo_session)
   \<and> find_backendData (apiData_of demo_session demo_transport) (parkingLots demo_session ! 1) = None
   \<and> parkingLots demo_refreshed ! 1 = demo_lot2
   \<and> parkingLots demo_session ! 1 = demo_lot2"
proof -
  have a: "(1::nat) < length (parkingLots demo_session)"
    and b: "parkingLots demo_session ! 1 = demo_lot2"
    by (simp_all add: demo_session_def)
  have c: "find_backendData (apiData_of demo_session demo_transport) (parkingLots demo_session ! 1) = None"
    by (simp only: b demo_apiData demo_find2)
  from unmatched_lot_unchanged [OF demo_refresh a c] have "parkingLots demo_refreshed ! 1 = demo_lot2"
    by (simp only: b)
  with a b c demo_refresh show ?thesis by simp
qed

text \<open>
  C9. When a sample matches a lot, the refresh changes only \<open>predicted_percent\<close>,
  \<open>total_slots\<close> and \<open>slots\<close> of that lot: its identifier, name, latitude, longitude,
  distance and facility type stay as they were, and they stay so across every sequence
  of refreshes.
\<close>

theorem matched_lot_keeps_identity:
  assumes "updatePrediction forceId tr sh render s = Inr (s', alerts)"
    and "i < length (parkingLots s)"
    and "find_backendData (apiData_of render tr) (parkingLots s ! i) = Some d"
  shows "parkingLots s' ! i =
           (parkingLots s ! i)\<lparr>predicted_percent := percent_of (total_occupied d) (sample_total_slots d),
                               total_slots := sample_total_slots d,
                               slots := slots (parkingLots s' ! i)\<rparr>
         \<and> lot_id (parkingLots s' ! i) = lot_id (parkingLots s ! i)
         \<and> name (parkingLots s' ! i) = name (parkingLots s ! i)
         \<and> lat (parkingLots s' ! i) = lat (parkingLots s ! i)
         \<and> lng (parkingLots s' ! i) = lng (parkingLots s ! i)
         \<and> distance_m (parkingLots s' ! i) = distance_m (parkingLots s ! i)
         \<and> lot_type (parkingLots s' ! i) = lot_type (parkingLots s ! i)
         \<and> (refreshes evs s' = Inr s'' \<longrightarrow>
              map lot_identity (parkingLots s'') = map lot_identity (parkingLots s))"
proof -
  from assms(1) obtain rs
    where rs: "update_lots forceId (selectedLotId render) (apiData_of render tr) sh (parkingLots s) = Inr rs"
      and lots: "parkingLots s' = map fst rs"
    by (rule updatePrediction_Inr)
  have len: "length rs = length (parkingLots s)" using rs by (rule update_lots_length)
  from update_lots_nth [OF rs assms(2)]
  have "update_lot forceId (selectedLotId render) (apiData_of render tr) (sh i) (parkingLots s ! i)
          = Inr (fst (rs ! i), snd (rs ! i))" by simp
  from update_lot_matched(2) [OF assms(3) this]
  have eq: "parkingLots s' ! i =
      (parkingLots s ! i)\<lparr>predicted_percent := percent_of (total_occupied d) (sample_total_slots d),
                          total_slots := sample_total_slots d,
                          slots := visualSlots (sh i (mark_occupied (total_occupied d)
                                     (replicate (nat (sample_total_slots d)) 0)))\<rparr>"
    using assms(2) len lots by simp
  have first: "parkingLots s' ! i =
           (parkingLots s ! i)\<lparr>predicted_percent := percent_of (total_occupied d) (sample_total_slots d),
                               total_slots := sample_total_slots d,
                               slots := slots (parkingLots s' ! i)\<rparr>"
    by (subst (1 2) eq) simp
  have fields: "lot_id (parkingLots s' ! i) = lot_id (parkingLots s ! i)"
    "name (parkingLots s' ! i) = name (parkingLots s ! i)"
    "lat (parkingLots s' ! i) = lat (parkingLots s ! i)"
    "lng (parkingLots s' ! i) = lng (parkingLots s ! i)"
    "distance_m (parkingLots s' ! i) = distance_m (parkingLots s ! i)"
    "lot_type (parkingLots s' ! i) = lot_type (parkingLots s ! i)"
    by (simp_all add: eq)
  have "map lot_identity (parkingLots s'') = map lot_identity (parkingLots s)"
    if "refreshes evs s' = Inr s''"
    using refreshes_identity [OF that] updatePrediction_identity [OF assms(1)] by simp
  with first fields show ?thesis by blast
qed

theorem matched_lot_keeps_identity_witness:
  "updatePrediction (Some ''1'') demo_transport demo_shuffle demo_session demo_session =
     Inr (demo_refreshed, [demo_alert])
   \<and> (0::nat) < length (parkingLots demo_session)
   \<and> find_backendData (apiData_of demo_session demo_transport) (parkingLots demo_session ! 0)
       = Some (sample 1 20 19)
   \<and> lot_identity (parkingLots demo_refreshed ! 0) = (''1'', ''Park A'', 0, 0, Num 187, surface)
   \<and> lot_identity (parkingLots demo_session ! 0) = (''1'', ''Park A'', 0, 0, Num 187, surface)
   \<and> predicted_percent (parkingLots demo_refreshed ! 0) = Num 95
   \<and> total_slots (parkingLots demo_refreshed ! 0) = 20"
proof -
  have a: "(0::nat) < length (parkingLots demo_session)"
    and b: "parkingLots demo_session ! 0 = demo_lot"
    by (simp_all add: demo_session_def)
  have c: "find_backendData (apiData_of demo_session demo_transport) (parkingLots demo_session ! 0)
             = Some (sample 1 20 19)"
    by (simp only: b demo_apiData demo_find1)
  have d: "lot_identity demo_lot = (''1'', ''Park A'', 0, 0, Num 187, surface)"
    by (simp add: lot_identity_def demo_lot_def)
  from matched_lot_keeps_identity [OF demo_refresh a c, of "[]" demo_refreshed]
  have "map lot_identity (parkingLots demo_refreshed) = map lot_identity (parkingLots demo_session)"
    by simp
  then have "lot_identity (parkingLots demo_refreshed ! 0) = lot_identity (parkingLots demo_session ! 0)"
    using a by (metis length_map nth_map)
  then have e: "lot_identity (parkingLots demo_refreshed ! 0) = (''1'', ''Park A'', 0, 0, Num 187, surface)"
    by (simp only: b d)
  have f: "predicted_percent (parkingLots demo_refreshed ! 0) = Num 95"
    "total_slots (parkingLots demo_refreshed ! 0) = 20"
    by (simp_all add: demo_refreshed_def)
  from a b c d e f demo_refresh show ?thesis by simp
qed

text \<open>
  C10. Applying the fallback samples to freshly seeded lots leaves the figures of each lot
  as they were: Park A keeps 120 slots at 36 percent and Park B keeps 30 slots at 43
  percent, and no notification is set. Selecting a destination always yields the seeded
  lots and the refresh that meets a failing transport always completes.
\<close>

theorem fallback_keeps_seed_figures:
  assumes "transport_fails tr"
  shows "\<exists>s1 s2. selectDestination_settled sh dest s = Inr s1
           \<and> updatePrediction forceId tr sh' render s1 = Inr (s2, [])
           \<and> map figures (parkingLots s2) = map figures (parkingLots s1)
           \<and> mset (map figures (parkingLots s1)) =
               {#(''Park A'', 120, Num 36), (''Park B'', 30, Num 43)#}"
proof -
  from mockFetchParkingLots_returns [of sh "dest_lat dest" "dest_lng dest"] obtain lots a b
    where m: "mockFetchParkingLots sh (dest_lat dest) (dest_lng dest) = Inr lots"
      and ms: "mset lots = {#a, b#}"
      and f: "figures a = (''Park A'', 120, Num 36)" "lot_id a = ''1''"
             "figures b = (''Park B'', 30, Num 43)" "lot_id b = ''2''"
    by blast
  define s1 where "s1 = s\<lparr>destination := Some dest, query := dest_name dest, suggestions := [],
            isLoading := False, parkingLots := lots, selectedLotId := None,
            debugData := DebugLots dest (length lots)\<rparr>"
  have s1: "selectDestination_settled sh dest s = Inr s1"
    unfolding s1_def using m by (rule selectDestination_settled_eq)
  have pl: "parkingLots s1 = lots" by (simp add: s1_def)
  have api: "apiData_of render tr = fallback (arrivalDate_of render)"
    using assms by (simp add: apiData_of_def fetch_fails)
  from ms have "set lots = {a, b}" by (metis mset_eq_setD set_mset_add_mset_insert set_mset_empty set_mset_mset)
  then have each: "\<exists>l' al. update_lot forceId (selectedLotId render) (fallback (arrivalDate_of render)) sh'' l
                      = Inr (l', al) \<and> (figures l' = figures l \<and> al = None)"
    if "l \<in> set lots" for l sh''
    using that f by (intro update_lot_fallback) auto
  from update_lots_pointwise [of lots forceId "selectedLotId render" "fallback (arrivalDate_of render)"
      "\<lambda>l l' al. figures l' = figures l \<and> al = None" sh', OF each]
  obtain rs where rs: "update_lots forceId (selectedLotId render) (fallback (arrivalDate_of render)) sh' lots = Inr rs"
    and len: "length rs = length lots"
    and P: "\<forall>i<length lots. figures (fst (rs ! i)) = figures (lots ! i) \<and> snd (rs ! i) = None"
    by blast
  have al: "alerts_of rs = []" using P len by (intro alerts_of_none) simp
  define s2 where "s2 = s1\<lparr>parkingLots := map fst rs,
                    notification := notification s1,
                    debugData := DebugApi (fallback (arrivalDate_of render)),
                    requests := requests s1 @ [arrivalDate_of render]\<rparr>"
  have s2: "updatePrediction forceId tr sh' render s1 = Inr (s2, [])"
    by (simp add: updatePrediction_def api pl rs al s2_def)
  have "map figures (parkingLots s2) = map figures (parkingLots s1)"
  proof (rule nth_equalityI)
    show "length (map figures (parkingLots s2)) = length (map figures (parkingLots s1))"
      by (simp add: s2_def pl len)
    fix i assume "i < length (map figures (parkingLots s2))"
    then have "i < length lots" by (simp add: s2_def len)
    with P len show "map figures (parkingLots s2) ! i = map figures (parkingLots s1) ! i"
      by (simp add: s2_def pl)
  qed
  moreover have "mset (map figures (parkingLots s1)) = {#(''Park A'', 120, Num 36), (''Park B'', 30, Num 43)#}"
  proof -
    have "mset (map figures lots) = image_mset figures (mset lots)" by simp
    also have "\<dots> = {#figures a, figures b#}" by (simp add: ms)
    finally show ?thesis by (simp add: pl f)
  qed
  ultimately show ?thesis using s1 s2 by blast
qed

theorem fallback_keeps_seed_figures_witness:
  "transport_fails NetworkError
   \<and> (\<exists>s1 s2. selectDestination_settled demo_shuffle
                 \<lparr>dest_name = ''Nizami Street, Baku'', dest_lat = 40375 / 1000, dest_lng = 49836 / 1000\<rparr>
                 demo_session = Inr s1
        \<and> updatePrediction None NetworkError demo_shuffle demo_session s1 = Inr (s2, [])
        \<and> map figures (parkingLots s2) = map figures (parkingLots s1)
        \<and> mset (map figures (parkingLots s1)) =
            {#(''Park A'', 120, Num 36), (''Park B'', 30, Num 43)#})"
  using fallback_keeps_seed_figures [of NetworkError demo_shuffle
      "\<lparr>dest_name = ''Nizami Street, Baku'', dest_lat = 40375 / 1000, dest_lng = 49836 / 1000\<rparr>"
      demo_session None demo_shuffle demo_session]
  by simp

end
